theory Spec2Isabelle
  imports Main
begin

text \<open>
  The sidecar script \<open>sidecar/main.py\<close> reads a query from standard input, asks the local
  graph database for evidence once for each of three branches (Historical, Theoretical,
  Practical) and prints a synthesis of what it found. The theory follows the script
  function by function. What the script calls in \<open>os\<close>, \<open>kuzudb\<close> and \<open>rich\<close> is a
  parameter: a library, acting on a world outside the process. Exceptions are values,
  and a run carries the world, the history of its cursor calls and its standard output.
\<close>

section \<open>Python text\<close>

text \<open>
  A Python \<open>str\<close> is a sequence of Unicode code points. A code point is a natural
  number here, so that every text the interpreter can hold is covered; \<open>u\<close> turns
  a literal of the source into its code points.
\<close>

type_synonym pystr = "nat list"

definition u :: "string \<Rightarrow> pystr" where
  "u s = map of_char s"

text \<open>
  \<open>str.isspace\<close> on one code point, after CPython's table of white space
  (\<open>_PyUnicode_IsWhitespace\<close>): the characters \<open>str.strip()\<close> removes.
\<close>

definition isspace :: "nat \<Rightarrow> bool" where
  "isspace c \<longleftrightarrow>
     (9 \<le> c \<and> c \<le> 13) \<or> (28 \<le> c \<and> c \<le> 32) \<or> c = 133 \<or> c = 160 \<or> c = 5760 \<or>
     (8192 \<le> c \<and> c \<le> 8202) \<or> c = 8232 \<or> c = 8233 \<or> c = 8239 \<or> c = 8287 \<or>
     c = 12288"

definition lstrip :: "pystr \<Rightarrow> pystr" where
  "lstrip s = dropWhile isspace s"

definition rstrip :: "pystr \<Rightarrow> pystr" where
  "rstrip s = rev (dropWhile isspace (rev s))"

definition strip :: "pystr \<Rightarrow> pystr" where
  "strip s = rstrip (lstrip s)"

text \<open>\<open>sep.join(parts)\<close>.\<close>

fun join :: "'a list \<Rightarrow> 'a list list \<Rightarrow> 'a list" where
  "join sep [] = []"
| "join sep [x] = x"
| "join sep (x # y # ys) = x @ sep @ join sep (y # ys)"

section \<open>Exceptions, the outside world and the libraries\<close>

text \<open>
  The exceptions that can end a run. The first four are raised inside the libraries
  (\<open>os\<close>, \<open>kuzudb\<close>, \<open>rich\<close>); \<open>IndexError\<close> is raised by \<open>row[0]\<close> on a row with
  no column.
\<close>

datatype error = OSError | ConnectError | QueryError | MarkupError | IndexError

text \<open>A result row is the tuple of its columns; the columns read here are texts.\<close>

type_synonym row = "pystr list"

text \<open>
  What the program does to the database cursor, in order: the history of a run.
  \<open>Execute\<close> carries the statement, its parameters and the exception raised (if any),
  \<open>Fetchall\<close> the rows returned or the exception raised. The history is only ever
  appended to and never read by the program.
\<close>

datatype event =
    Execute pystr "pystr list" "error option"
  | Fetchall "error + row list"

text \<open>
  The state of a run: the world outside the process (file system and database
  engine), the history of cursor calls, and what has been written to standard output.
\<close>

record 'w state =
  world :: 'w
  history :: "event list"
  stdout :: pystr

text \<open>
  The library calls of the source are parameters of the model. A call that acts on the
  outside takes the world and returns its result, or the exception it raises, with the
  world it leaves behind. \<open>render\<close> is what \<open>rich\<close> makes of a text with console markup
  before writing it.
\<close>

record ('w, 'conn, 'cur) library =
  os_path_expanduser :: "pystr \<Rightarrow> pystr"
  os_path_dirname :: "pystr \<Rightarrow> pystr"
  os_path_exists :: "pystr \<Rightarrow> 'w \<Rightarrow> bool"
  os_makedirs :: "pystr \<Rightarrow> 'w \<Rightarrow> (error + unit) \<times> 'w"
  kuzudb_connect :: "pystr \<Rightarrow> 'w \<Rightarrow> (error + 'conn) \<times> 'w"
  db_cursor :: "'conn \<Rightarrow> 'w \<Rightarrow> (error + 'cur) \<times> 'w"
  cursor_execute :: "'cur \<Rightarrow> pystr \<Rightarrow> pystr list \<Rightarrow> 'w \<Rightarrow> (error + unit) \<times> 'w"
  cursor_fetchall :: "'cur \<Rightarrow> 'w \<Rightarrow> (error + row list) \<times> 'w"
  render :: "pystr \<Rightarrow> error + pystr"

text \<open>A library call made from a run: it acts on the world inside the state.\<close>

definition call :: "('w \<Rightarrow> (error + 'a) \<times> 'w) \<Rightarrow> 'w state \<Rightarrow> (error + 'a) \<times> 'w state" where
  "call f st = (case f (world st) of (r, w') \<Rightarrow> (r, st\<lparr>world := w'\<rparr>))"

definition record_event :: "event \<Rightarrow> 'w state \<Rightarrow> 'w state" where
  "record_event ev st = st\<lparr>history := history st @ [ev]\<rparr>"

text \<open>\<open>cursor.execute(stmt, params)\<close> and \<open>cursor.fetchall()\<close>, with their entry in the history.\<close>

definition execute ::
  "('w, 'conn, 'cur) library \<Rightarrow> 'cur \<Rightarrow> pystr \<Rightarrow> pystr list \<Rightarrow> 'w state \<Rightarrow> (error + unit) \<times> 'w state" where
  "execute L cur stmt params st =
     (case call (cursor_execute L cur stmt params) st of
        (Inl e, st') \<Rightarrow> (Inl e, record_event (Execute stmt params (Some e)) st')
      | (Inr x, st') \<Rightarrow> (Inr x, record_event (Execute stmt params None) st'))"

definition fetchall ::
  "('w, 'conn, 'cur) library \<Rightarrow> 'cur \<Rightarrow> 'w state \<Rightarrow> (error + row list) \<times> 'w state" where
  "fetchall L cur st =
     (case call (cursor_fetchall L cur) st of (r, st') \<Rightarrow> (r, record_event (Fetchall r) st'))"

section \<open>The program\<close>

subsection \<open>\<open>connect_db\<close>\<close>

definition DB_PATH :: "('w, 'conn, 'cur) library \<Rightarrow> pystr" where
  "DB_PATH L = os_path_expanduser L (u ''~/.axiomhive/axiom.kuzu'')"

definition connect_db :: "('w, 'conn, 'cur) library \<Rightarrow> 'w state \<Rightarrow> (error + 'conn) \<times> 'w state" where
  "connect_db L st =
     (if \<not> os_path_exists L (os_path_dirname L (DB_PATH L)) (world st) then
        (case call (os_makedirs L (os_path_dirname L (DB_PATH L))) st of
           (Inl e, st') \<Rightarrow> (Inl e, st')
         | (Inr _, st') \<Rightarrow> call (kuzudb_connect L (DB_PATH L)) st')
      else call (kuzudb_connect L (DB_PATH L)) st)"

subsection \<open>\<open>meta_deep_search\<close>\<close>

text \<open>The list \<open>branches\<close>: the three labels with their sub-queries.\<close>

definition branches :: "pystr \<Rightarrow> (pystr \<times> pystr) list" where
  "branches query =
     [(u ''Historical'', u ''What is the historical context of: '' @ query),
      (u ''Theoretical'', u ''What are the theoretical principles behind: '' @ query),
      (u ''Practical'', u ''What practical examples or proofs exist for: '' @ query)]"

text \<open>The statement and the parameter of every \<open>cursor.execute\<close>.\<close>

definition knowledge_query :: pystr where
  "knowledge_query = u ''MATCH (n:Knowledge) WHERE n.text LIKE ? RETURN n LIMIT 5''"

definition like_pattern :: "pystr \<Rightarrow> pystr" where
  "like_pattern query = u ''%'' @ query @ u ''%''"

text \<open>\<open>row[0]\<close>, and the list \<open>[row[0] for row in rows]\<close>, which stops at the first exception.\<close>

definition row0 :: "row \<Rightarrow> error + pystr" where
  "row0 r = (case r of [] \<Rightarrow> Inl IndexError | t # _ \<Rightarrow> Inr t)"

fun first_columns :: "row list \<Rightarrow> error + pystr list" where
  "first_columns [] = Inr []"
| "first_columns (r # rs) =
     (case row0 r of
        Inl e \<Rightarrow> Inl e
      | Inr t \<Rightarrow> (case first_columns rs of Inl e \<Rightarrow> Inl e | Inr ts \<Rightarrow> Inr (t # ts)))"

text \<open>
  The evidence text of one branch, from the rows fetched for it: the value of \<open>context\<close>
  in the loop.
\<close>

definition no_evidence :: pystr where
  "no_evidence = u ''(no local evidence found)''"

definition context_text :: "row list \<Rightarrow> error + pystr" where
  "context_text rows =
     (if rows \<noteq> [] then
        (case first_columns rows of Inl e \<Rightarrow> Inl e | Inr ts \<Rightarrow> Inr (join (u ''\<newline>'') ts))
      else Inr no_evidence)"

text \<open>An entry of \<open>answers\<close>: label, sub-query, evidence text.\<close>

type_synonym answer = "pystr \<times> pystr \<times> pystr"

text \<open>The body of the \<open>for\<close> loop, for one branch.\<close>

definition branch_step ::
  "('w, 'conn, 'cur) library \<Rightarrow> 'cur \<Rightarrow> pystr \<Rightarrow> pystr \<times> pystr \<Rightarrow> answer list \<Rightarrow> 'w state
     \<Rightarrow> (error + answer list) \<times> 'w state" where
  "branch_step L cursor query b answers st =
     (case b of (label, subquery) \<Rightarrow>
        (case execute L cursor knowledge_query [like_pattern query] st of
           (Inl e, st1) \<Rightarrow> (Inl e, st1)
         | (Inr _, st1) \<Rightarrow>
             (case fetchall L cursor st1 of
                (Inl e, st2) \<Rightarrow> (Inl e, st2)
              | (Inr rows, st2) \<Rightarrow>
                  (case context_text rows of
                     Inl e \<Rightarrow> (Inl e, st2)
                   | Inr ctx \<Rightarrow> (Inr (answers @ [(label, subquery, ctx)]), st2)))))"

text \<open>The \<open>for\<close> loop over the branches: an exception in one branch ends the loop.\<close>

fun for_branches ::
  "('w, 'conn, 'cur) library \<Rightarrow> 'cur \<Rightarrow> pystr \<Rightarrow> (pystr \<times> pystr) list \<Rightarrow> answer list \<Rightarrow> 'w state
     \<Rightarrow> (error + answer list) \<times> 'w state" where
  "for_branches L cursor query [] answers st = (Inr answers, st)"
| "for_branches L cursor query (b # bs) answers st =
     (case branch_step L cursor query b answers st of
        (Inl e, st') \<Rightarrow> (Inl e, st')
      | (Inr answers', st') \<Rightarrow> for_branches L cursor query bs answers' st')"

text \<open>The two lines \<open>db = connect_db()\<close> and \<open>cursor = db.cursor()\<close>.\<close>

definition open_cursor :: "('w, 'conn, 'cur) library \<Rightarrow> 'w state \<Rightarrow> (error + 'cur) \<times> 'w state" where
  "open_cursor L st =
     (case connect_db L st of
        (Inl e, st1) \<Rightarrow> (Inl e, st1)
      | (Inr db, st1) \<Rightarrow> call (db_cursor L db) st1)"

text \<open>
  \<open>meta_deep_search\<close> up to the end of the loop, over a given list of branches: the
  value of \<open>answers\<close>.
\<close>

definition gather ::
  "('w, 'conn, 'cur) library \<Rightarrow> pystr \<Rightarrow> (pystr \<times> pystr) list \<Rightarrow> 'w state
     \<Rightarrow> (error + answer list) \<times> 'w state" where
  "gather L query bs st =
     (case open_cursor L st of
        (Inl e, st') \<Rightarrow> (Inl e, st')
      | (Inr cursor, st') \<Rightarrow> for_branches L cursor query bs [] st')"

text \<open>
  The last two lines of \<open>meta_deep_search\<close>: one line per answer, the label inside the
  markup pair \<open>[bold red]\<close> ... \<open>[/]\<close>, under the header.
\<close>

definition bold_red :: "pystr \<Rightarrow> pystr" where
  "bold_red t = u ''[bold red]'' @ t @ u ''[/]''"

definition answer_line :: "answer \<Rightarrow> pystr" where
  "answer_line a = (case a of (lbl, sq, ctx) \<Rightarrow> bold_red lbl @ u '': '' @ ctx)"

definition synthesis :: "answer list \<Rightarrow> pystr" where
  "synthesis answers = join (u ''\<newline>'') (map answer_line answers)"

definition synthesize :: "answer list \<Rightarrow> pystr" where
  "synthesize answers = u ''Tree-of-Thoughts Synthesis:\<newline>'' @ synthesis answers"

text \<open>
  The body of \<open>meta_deep_search\<close> after the list \<open>branches\<close> is built, and the function
  itself, which builds the list from the query.
\<close>

definition search_over ::
  "('w, 'conn, 'cur) library \<Rightarrow> pystr \<Rightarrow> (pystr \<times> pystr) list \<Rightarrow> 'w state
     \<Rightarrow> (error + pystr) \<times> 'w state" where
  "search_over L query bs st =
     (case gather L query bs st of
        (Inl e, st') \<Rightarrow> (Inl e, st')
      | (Inr answers, st') \<Rightarrow> (Inr (synthesize answers), st'))"

definition meta_deep_search ::
  "('w, 'conn, 'cur) library \<Rightarrow> pystr \<Rightarrow> 'w state \<Rightarrow> (error + pystr) \<times> 'w state" where
  "meta_deep_search L query st = search_over L query (branches query) st"

subsection \<open>\<open>main\<close> and the process\<close>

text \<open>
  \<open>print\<close> is \<open>rich.print\<close>: it renders the text and writes it with the line end
  \<open>end="\n"\<close>; a text it cannot render raises before anything is written.
\<close>

definition rich_print :: "('w, 'conn, 'cur) library \<Rightarrow> pystr \<Rightarrow> 'w state \<Rightarrow> (error + unit) \<times> 'w state" where
  "rich_print L text st =
     (case render L text of
        Inl e \<Rightarrow> (Inl e, st)
      | Inr shown \<Rightarrow> (Inr (), st\<lparr>stdout := stdout st @ shown @ u ''\<newline>''\<rparr>))"

text \<open>\<open>main\<close>, on the text \<open>sys.stdin.read()\<close> returns.\<close>

definition main :: "('w, 'conn, 'cur) library \<Rightarrow> pystr \<Rightarrow> 'w state \<Rightarrow> (error + unit) \<times> 'w state" where
  "main L input_txt st =
     (case meta_deep_search L (strip input_txt) st of
        (Inl e, st') \<Rightarrow> (Inl e, st')
      | (Inr out, st') \<Rightarrow> rich_print L out st')"

text \<open>
  One invocation of the script on a world: nothing has been written and no cursor call
  made when \<open>main\<close> starts; an exception that leaves \<open>main\<close> ends the process with
  status 1, a return with status 0.
\<close>

definition start :: "'w \<Rightarrow> 'w state" where
  "start w = \<lparr>world = w, history = [], stdout = []\<rparr>"

definition run :: "('w, 'conn, 'cur) library \<Rightarrow> pystr \<Rightarrow> 'w \<Rightarrow> nat \<times> 'w state" where
  "run L input_txt w =
     (case main L input_txt (start w) of
        (Inl e, st) \<Rightarrow> (1, st)
      | (Inr _, st) \<Rightarrow> (0, st))"

section \<open>Reading a run\<close>

text \<open>The statements executed in a history, with their parameters, in order.\<close>

fun lookups :: "event list \<Rightarrow> (pystr \<times> pystr list) list" where
  "lookups [] = []"
| "lookups (Execute stmt params r # evs) = (stmt, params) # lookups evs"
| "lookups (Fetchall r # evs) = lookups evs"

text \<open>The row sequences fetched in a history, in order.\<close>

fun fetched :: "event list \<Rightarrow> row list list" where
  "fetched [] = []"
| "fetched (Fetchall (Inr rows) # evs) = rows # fetched evs"
| "fetched (ev # evs) = fetched evs"

text \<open>The exception a cursor call raised, if it raised one.\<close>

fun raised :: "event \<Rightarrow> error option" where
  "raised (Execute stmt params r) = r"
| "raised (Fetchall r) = (case r of Inl e \<Rightarrow> Some e | Inr rows \<Rightarrow> None)"

text \<open>The two cursor calls of a branch whose request succeeds with the given rows.\<close>

definition ok_events :: "pystr \<Rightarrow> row list \<Rightarrow> event list" where
  "ok_events q rows = [Execute knowledge_query [like_pattern q] None, Fetchall (Inr rows)]"

text \<open>
  The evidence texts of a list of answers, and what is left of an answer without its
  sub-query.
\<close>

definition evidence :: "answer list \<Rightarrow> pystr list" where
  "evidence answers = map (\<lambda>a. snd (snd a)) answers"

definition label_and_evidence :: "answer \<Rightarrow> pystr \<times> pystr" where
  "label_and_evidence a = (fst a, snd (snd a))"

text \<open>
  The lines of a text, as \<open>text.split("\n")\<close> gives them: one more than there are
  line feeds.
\<close>

fun split_lines :: "pystr \<Rightarrow> pystr list" where
  "split_lines [] = [[]]"
| "split_lines (c # cs) =
     (if c = 10 then [] # split_lines cs
      else (case split_lines cs of l # ls \<Rightarrow> (c # l) # ls | [] \<Rightarrow> [[c]]))"

text \<open>The lines of an output that follow its first line, the header.\<close>

definition lines_after_header :: "pystr \<Rightarrow> pystr list" where
  "lines_after_header out = tl (split_lines out)"

text \<open>
  One request to the storage, as the loop makes it: \<open>execute\<close>, then \<open>fetchall\<close>. A
  storage answers by a response function when, in every world, the request gets the
  response the function gives for its statement and parameters.
\<close>

definition lookup ::
  "('w, 'conn, 'cur) library \<Rightarrow> 'cur \<Rightarrow> pystr \<Rightarrow> pystr list \<Rightarrow> 'w \<Rightarrow> (error + row list) \<times> 'w" where
  "lookup L cur stmt params w =
     (case cursor_execute L cur stmt params w of
        (Inl e, w') \<Rightarrow> (Inl e, w')
      | (Inr _, w') \<Rightarrow> cursor_fetchall L cur w')"

definition answers_by ::
  "('w, 'conn, 'cur) library \<Rightarrow> (pystr \<Rightarrow> pystr list \<Rightarrow> error + row list) \<Rightarrow> bool" where
  "answers_by L response \<longleftrightarrow>
     (\<forall>cur stmt params w. fst (lookup L cur stmt params w) = response stmt params)"

text \<open>A storage that also opens the same way in every world.\<close>

definition fixed_storage ::
  "('w, 'conn, 'cur) library \<Rightarrow> (error + 'cur) \<Rightarrow> (pystr \<Rightarrow> pystr list \<Rightarrow> error + row list) \<Rightarrow> bool" where
  "fixed_storage L opened response \<longleftrightarrow>
     (\<forall>st. fst (open_cursor L st) = opened) \<and> answers_by L response"

section \<open>Console markup\<close>

text \<open>
  What \<open>rich\<close> makes of a text with console markup when standard output is not a
  terminal, as far as the tags go. A tag is an opening bracket, a first character out of
  \<open>a\<close> to \<open>z\<close>, \<open>#\<close>, \<open>/\<close> and \<open>@\<close>, then characters other than an opening bracket up
  to the first closing bracket. A tag is taken out of the text. An opening tag is put on
  the stack of open tags; \<open>[/]\<close> closes the tag opened last, \<open>[/name]\<close> the last open
  tag of that name, and a closing tag with nothing to close raises \<open>MarkupError\<close>.
  Styles change no character of what is written. Left out are what \<open>rich\<close> does to
  backslashes before a bracket, to emoji codes and to lines longer than the console is
  wide, and names of tags are compared as they are written.
\<close>

definition tag_start :: "nat \<Rightarrow> bool" where
  "tag_start c \<longleftrightarrow> (97 \<le> c \<and> c \<le> 122) \<or> c = 35 \<or> c = 47 \<or> c = 64"

text \<open>
  The text of the tag whose opening bracket has just been read: the characters up to the
  first closing bracket; there is no tag when an opening bracket or the end of the text
  comes first, or when the first character cannot start a tag.
\<close>

fun tag_body :: "pystr \<Rightarrow> pystr option" where
  "tag_body [] = None"
| "tag_body (c # cs) =
     (if c = 93 then Some []
      else if c = 91 then None
      else (case tag_body cs of None \<Rightarrow> None | Some t \<Rightarrow> Some (c # t)))"

definition tag_after :: "pystr \<Rightarrow> pystr option" where
  "tag_after cs = (case cs of [] \<Rightarrow> None | c # _ \<Rightarrow> if tag_start c then tag_body cs else None)"

text \<open>
  What a tag does to the stack of open tags. The name of a tag is its text before the
  first \<open>=\<close>.
\<close>

definition apply_tag :: "pystr list \<Rightarrow> pystr \<Rightarrow> error + pystr list" where
  "apply_tag tags tag =
     (let name = takeWhile (\<lambda>c. c \<noteq> 61) tag in
      if take 1 name = [47] then
        (let style_name = strip (drop 1 name) in
         if style_name = [] then
           (case tags of [] \<Rightarrow> Inl MarkupError | _ # below \<Rightarrow> Inr below)
         else if style_name \<in> set tags then Inr (remove1 style_name tags)
         else Inl MarkupError)
      else Inr (strip name # tags))"

text \<open>
  The text written, for the open tags, the number of characters of a tag still to pass
  over, and the text that remains.
\<close>

fun console_markup :: "pystr list \<Rightarrow> nat \<Rightarrow> pystr \<Rightarrow> error + pystr" where
  "console_markup tags n [] = Inr []"
| "console_markup tags (Suc n) (c # cs) = console_markup tags n cs"
| "console_markup tags 0 (c # cs) =
     (if c = 91 then
        (case tag_after cs of
           Some tag \<Rightarrow>
             (case apply_tag tags tag of
                Inl e \<Rightarrow> Inl e
              | Inr tags' \<Rightarrow> console_markup tags' (Suc (length tag)) cs)
         | None \<Rightarrow>
             (case console_markup tags 0 cs of Inl e \<Rightarrow> Inl e | Inr shown \<Rightarrow> Inr (c # shown)))
      else (case console_markup tags 0 cs of Inl e \<Rightarrow> Inl e | Inr shown \<Rightarrow> Inr (c # shown)))"

definition plain_console :: "pystr \<Rightarrow> error + pystr" where
  "plain_console text = console_markup [] 0 text"

section \<open>Libraries to run the program on\<close>

text \<open>
  A library whose storage opens with a given result and whose \<open>fetchall\<close> is a given
  function of the world; the home directory is \<open>/home/axiom\<close>, the directory of the
  database exists, statements execute, and texts are written with their console markup
  taken out.
\<close>

definition test_library ::
  "(error + unit) \<Rightarrow> ('w \<Rightarrow> (error + row list) \<times> 'w) \<Rightarrow> ('w, unit, unit) library" where
  "test_library opened fetch =
     \<lparr>os_path_expanduser = (\<lambda>p. u ''/home/axiom'' @ drop 1 p),
      os_path_dirname = (\<lambda>p. rev (drop 1 (dropWhile (\<lambda>c. c \<noteq> 47) (rev p)))),
      os_path_exists = (\<lambda>p w. True),
      os_makedirs = (\<lambda>p w. (Inr (), w)),
      kuzudb_connect = (\<lambda>p w. (opened, w)),
      db_cursor = (\<lambda>db w. (Inr (), w)),
      cursor_execute = (\<lambda>cur stmt params w. (Inr (), w)),
      cursor_fetchall = (\<lambda>cur. fetch),
      render = plain_console\<rparr>"

text \<open>\<open>fetchall\<close> that returns the same rows every time, on a world with nothing in it.\<close>

definition always :: "row list \<Rightarrow> unit \<Rightarrow> (error + row list) \<times> unit" where
  "always rows w = (Inr rows, w)"

text \<open>\<open>fetchall\<close> that plays a script: the world is the list of results still to come.\<close>

definition scripted :: "(error + row list) list \<Rightarrow> (error + row list) \<times> (error + row list) list" where
  "scripted w = (case w of [] \<Rightarrow> (Inr [], []) | r # rs \<Rightarrow> (r, rs))"

text \<open>\<open>fetchall\<close> that returns the same rows every time and counts its calls in the world.\<close>

definition counting :: "row list \<Rightarrow> nat \<Rightarrow> (error + row list) \<times> nat" where
  "counting rows w = (Inr rows, Suc w)"

section \<open>The storage accessor\<close>

text \<open>
  Modelled from the spec: the database behind the storage accessor, which belongs to the
  \<open>kuzudb\<close> engine and not to the script. It holds the Knowledge records, here the list
  of their texts in the order the engine yields them, and the rows of the last statement
  executed, which \<open>fetchall\<close> hands out.
\<close>

record knowledge_db =
  knowledge :: "pystr list"
  result_set :: "row list"

text \<open>
  Modelled from the spec: the storage accessor's \<open>query_substring(connection, pattern,
  limit)\<close>, the engine's side of the statement that the source only sends. It matches
  the pattern against the text of every \<open>Knowledge\<close> node and returns at most \<open>limit\<close>
  matches in the order the engine yields them, the empty sequence when there is none.
  How a pattern matches a text is the engine's; it is the parameter \<open>matches\<close>.
\<close>

definition query_substring ::
  "(pystr \<Rightarrow> pystr \<Rightarrow> bool) \<Rightarrow> knowledge_db \<Rightarrow> pystr \<Rightarrow> nat \<Rightarrow> pystr list" where
  "query_substring matches conn pattern limit =
     take limit (filter (matches pattern) (knowledge conn))"

text \<open>
  Modelled from the spec: the library calls over this storage accessor, which stand for
  the \<open>kuzudb\<close> engine. Opening gives the result \<open>opened\<close> (\<open>ensure_and_open\<close> may
  fail), executing the program's statement with one pattern runs \<open>query_substring\<close>
  with the statement's limit 5 and keeps one row per match, its text in column 0, and
  \<open>fetchall\<close> returns these rows.
\<close>

definition storage_library ::
  "(pystr \<Rightarrow> pystr \<Rightarrow> bool) \<Rightarrow> (error + unit) \<Rightarrow> (knowledge_db, unit, unit) library" where
  "storage_library matches opened =
     (test_library opened (\<lambda>w. (Inr (result_set w), w)))
       \<lparr>cursor_execute := (\<lambda>cur stmt params w.
          (case params of
             [pattern] \<Rightarrow>
               if stmt = knowledge_query
               then (Inr (), w\<lparr>result_set := map (\<lambda>t. [t]) (query_substring matches w pattern 5)\<rparr>)
               else (Inl QueryError, w)
           | _ \<Rightarrow> (Inl QueryError, w)))\<rparr>"

text \<open>The rows this storage has for the program's request on a query.\<close>

definition found :: "(pystr \<Rightarrow> pystr \<Rightarrow> bool) \<Rightarrow> knowledge_db \<Rightarrow> pystr \<Rightarrow> row list" where
  "found matches w q = map (\<lambda>t. [t]) (query_substring matches w (like_pattern q) 5)"

text \<open>
  A matcher and a database to run the storage on: \<open>%\<close> in the pattern stands for any run
  of characters, every other character for itself; six of the seven texts contain
  \<open>gravity\<close>.
\<close>

fun wildcard_match :: "pystr \<Rightarrow> pystr \<Rightarrow> bool" where
  "wildcard_match [] t = (t = [])"
| "wildcard_match (p # ps) [] = (p = 37 \<and> wildcard_match ps [])"
| "wildcard_match (p # ps) (c # cs) =
     (if p = 37 then wildcard_match ps (c # cs) \<or> wildcard_match (p # ps) cs
      else p = c \<and> wildcard_match ps cs)"

definition shelf :: knowledge_db where
  "shelf = \<lparr>knowledge = [u ''gravity'', u ''a gravity b'', u ''apple'', u ''gravity2'',
       u ''gravity3'', u ''gravity4'', u ''gravity5''], result_set = []\<rparr>"

section \<open>What a run does to the state\<close>

text \<open>
  Library calls change the world only; \<open>execute\<close> and \<open>fetchall\<close> add their entry to
  the history; nothing before \<open>print\<close> writes to standard output.
\<close>

lemma u_append: "u (a @ b) = u a @ u b"
  by (simp add: u_def)

lemma lookups_append: "lookups (xs @ ys) = lookups xs @ lookups ys"
  by (induction xs rule: lookups.induct) simp_all

lemma fetched_append: "fetched (xs @ ys) = fetched xs @ fetched ys"
  by (induction xs rule: fetched.induct) simp_all

lemma history_start: "history (start w) = []" "stdout (start w) = []" "world (start w) = w"
  by (simp_all add: start_def)

lemma call_effect: "call f st = (r, st') \<Longrightarrow> stdout st' = stdout st \<and> history st' = history st"
  by (auto simp: call_def split: prod.splits)

lemma execute_effect:
  "execute L cur stmt ps st = (r, st') \<Longrightarrow>
     stdout st' = stdout st \<and>
     history st' = history st @ [Execute stmt ps (case r of Inl e \<Rightarrow> Some e | Inr _ \<Rightarrow> None)]"
  by (auto simp: execute_def record_event_def call_def split: prod.splits sum.splits)

lemma fetchall_effect:
  "fetchall L cur st = (r, st') \<Longrightarrow>
     stdout st' = stdout st \<and> history st' = history st @ [Fetchall r]"
  by (auto simp: fetchall_def record_event_def call_def split: prod.splits)

lemma connect_db_effect:
  "connect_db L st = (r, st') \<Longrightarrow> stdout st' = stdout st \<and> history st' = history st"
  by (auto simp: connect_db_def split: if_splits prod.splits sum.splits dest!: call_effect)

lemma open_cursor_effect:
  "open_cursor L st = (r, st') \<Longrightarrow> stdout st' = stdout st \<and> history st' = history st"
  by (auto simp: open_cursor_def split: prod.splits sum.splits dest!: call_effect connect_db_effect)

lemma branch_step_ok:
  assumes "branch_step L cur q b as st = (Inr as', st')"
  shows "\<exists>rows ctx. context_text rows = Inr ctx \<and> as' = as @ [(fst b, snd b, ctx)] \<and>
           stdout st' = stdout st \<and> history st' = history st @ ok_events q rows"
  using assms
  by (auto simp: branch_step_def ok_events_def split: prod.splits sum.splits
      dest!: execute_effect fetchall_effect)

lemma branch_step_err:
  assumes "branch_step L cur q b as st = (Inl e, st')"
  shows "stdout st' = stdout st \<and>
         (\<exists>evs. history st' = history st @ evs \<and>
            lookups evs = [(knowledge_query, [like_pattern q])])"
  using assms
  by (auto simp: branch_step_def split: prod.splits sum.splits
      dest!: execute_effect fetchall_effect)

lemma branch_step_raised:
  assumes "branch_step L cur q b as st = (r, st')"
  shows "\<exists>evs. history st' = history st @ evs \<and>
           (\<forall>ev \<in> set evs. \<forall>e. raised ev = Some e \<longrightarrow> r = Inl e)"
  using assms
  by (auto simp: branch_step_def split: prod.splits sum.splits
      dest!: execute_effect fetchall_effect)

text \<open>A loop that ends normally made the two calls of every branch, and none raised.\<close>

lemma for_branches_ok:
  "for_branches L cur q bs as st = (Inr as', st') \<Longrightarrow>
     \<exists>rowss ctxs. length rowss = length bs \<and> map context_text rowss = map Inr ctxs \<and>
        as' = as @ map2 (\<lambda>b c. (fst b, snd b, c)) bs ctxs \<and>
        stdout st' = stdout st \<and>
        history st' = history st @ concat (map (ok_events q) rowss)"
proof (induction bs arbitrary: as st)
  case Nil
  then show ?case by simp
next
  case (Cons b bs)
  from Cons.prems obtain as1 st1 where
    step: "branch_step L cur q b as st = (Inr as1, st1)" and
    rest: "for_branches L cur q bs as1 st1 = (Inr as', st')"
    by (auto split: prod.splits sum.splits)
  from branch_step_ok [OF step] obtain rows ctx where
    s: "context_text rows = Inr ctx" "as1 = as @ [(fst b, snd b, ctx)]"
       "stdout st1 = stdout st" "history st1 = history st @ ok_events q rows"
    by blast
  from Cons.IH [OF rest] obtain rowss ctxs where
    r: "length rowss = length bs" "map context_text rowss = map Inr ctxs"
       "as' = as1 @ map2 (\<lambda>b c. (fst b, snd b, c)) bs ctxs"
       "stdout st' = stdout st1"
       "history st' = history st1 @ concat (map (ok_events q) rowss)"
    by blast
  show ?case
    apply (rule exI [of _ "rows # rowss"])
    apply (rule exI [of _ "ctx # ctxs"])
    using s r by simp
qed

text \<open>
  However the loop ends, it has executed the one statement with the one pattern, once
  for each branch it reached.
\<close>

lemma for_branches_history:
  "for_branches L cur q bs as st = (r, st') \<Longrightarrow>
     stdout st' = stdout st \<and>
     (\<exists>evs n. history st' = history st @ evs \<and> n \<le> length bs \<and>
        lookups evs = replicate n (knowledge_query, [like_pattern q]) \<and>
        ((\<exists>x. r = Inr x) \<longrightarrow> n = length bs))"
proof (induction bs arbitrary: as st)
  case Nil
  then show ?case by auto
next
  case (Cons b bs)
  show ?case
  proof (cases "branch_step L cur q b as st")
    case (Pair r1 st1)
    show ?thesis
    proof (cases r1)
      case (Inl e)
      with Pair Cons.prems have eq: "r = Inl e" "st' = st1" by auto
      from branch_step_err [OF Pair [unfolded Inl]] obtain evs where
        "stdout st1 = stdout st" "history st1 = history st @ evs"
        "lookups evs = replicate 1 (knowledge_query, [like_pattern q])"
        by auto
      then show ?thesis using eq
        by (metis One_nat_def Suc_leI length_Cons sum.distinct(1) zero_less_Suc)
    next
      case (Inr as1)
      with Pair Cons.prems have rest: "for_branches L cur q bs as1 st1 = (r, st')" by auto
      from branch_step_ok [OF Pair [unfolded Inr]] obtain evs1 where
        h1: "stdout st1 = stdout st" "history st1 = history st @ evs1"
          "lookups evs1 = [(knowledge_query, [like_pattern q])]"
        by (auto simp: ok_events_def)
      from Cons.IH [OF rest] obtain evs n where
        h2: "stdout st' = stdout st1" "history st' = history st1 @ evs" "n \<le> length bs"
          "lookups evs = replicate n (knowledge_query, [like_pattern q])"
          "(\<exists>x. r = Inr x) \<longrightarrow> n = length bs"
        by blast
      show ?thesis
        apply (rule conjI)
        using h1 h2 apply simp
        apply (rule exI [of _ "evs1 @ evs"])
        apply (rule exI [of _ "Suc n"])
        using h1 h2 by (simp add: lookups_append)
    qed
  qed
qed

text \<open>An exception raised by a cursor call is the exception the loop ends with.\<close>

lemma for_branches_raised:
  "for_branches L cur q bs as st = (r, st') \<Longrightarrow>
     \<exists>evs. history st' = history st @ evs \<and>
        (\<forall>ev \<in> set evs. \<forall>e. raised ev = Some e \<longrightarrow> r = Inl e)"
proof (induction bs arbitrary: as st)
  case Nil
  then show ?case by simp
next
  case (Cons b bs)
  show ?case
  proof (cases "branch_step L cur q b as st")
    case (Pair r1 st1)
    from branch_step_raised [OF Pair] obtain evs1 where
      h1: "history st1 = history st @ evs1"
        "\<forall>ev \<in> set evs1. \<forall>e. raised ev = Some e \<longrightarrow> r1 = Inl e"
      by blast
    show ?thesis
    proof (cases r1)
      case (Inl e)
      with Pair Cons.prems have "r = r1" "st' = st1" by auto
      with h1 show ?thesis by blast
    next
      case (Inr as1)
      with Pair Cons.prems have rest: "for_branches L cur q bs as1 st1 = (r, st')" by auto
      from Cons.IH [OF rest] obtain evs where
        h2: "history st' = history st1 @ evs"
          "\<forall>ev \<in> set evs. \<forall>e. raised ev = Some e \<longrightarrow> r = Inl e"
        by blast
      from h1(2) Inr have "\<forall>ev \<in> set evs1. raised ev = None"
        by (metis not_Some_eq sum.distinct(1))
      with h1 h2 show ?thesis
        by (intro exI [of _ "evs1 @ evs"]) auto
    qed
  qed
qed

lemma gather_history:
  assumes "gather L q bs st = (r, st')"
  shows "stdout st' = stdout st \<and>
     (\<exists>evs n. history st' = history st @ evs \<and> n \<le> length bs \<and>
        lookups evs = replicate n (knowledge_query, [like_pattern q]) \<and>
        ((\<exists>x. r = Inr x) \<longrightarrow> n = length bs))"
proof (cases "open_cursor L st")
  case (Pair r1 st1)
  note oc = open_cursor_effect [OF Pair]
  show ?thesis
  proof (cases r1)
    case (Inl e)
    with Pair assms have "r = Inl e" "st' = st1" by (auto simp: gather_def)
    with oc show ?thesis by auto
  next
    case (Inr cur)
    with Pair assms have "for_branches L cur q bs [] st1 = (r, st')" by (auto simp: gather_def)
    from for_branches_history [OF this] oc show ?thesis by simp
  qed
qed

lemma gather_ok:
  assumes "gather L q bs st = (Inr answers, st')"
  shows "\<exists>rowss ctxs. length rowss = length bs \<and> map context_text rowss = map Inr ctxs \<and>
        answers = map2 (\<lambda>b c. (fst b, snd b, c)) bs ctxs \<and>
        stdout st' = stdout st \<and>
        history st' = history st @ concat (map (ok_events q) rowss)"
proof -
  from assms obtain cur st1 where
    oc: "open_cursor L st = (Inr cur, st1)" and
    fb: "for_branches L cur q bs [] st1 = (Inr answers, st')"
    by (auto simp: gather_def split: prod.splits sum.splits)
  from for_branches_ok [OF fb] open_cursor_effect [OF oc] show ?thesis by simp
qed

lemma gather_raised:
  assumes "gather L q bs st = (r, st')"
  shows "\<exists>evs. history st' = history st @ evs \<and>
        (\<forall>ev \<in> set evs. \<forall>e. raised ev = Some e \<longrightarrow> r = Inl e)"
proof (cases "open_cursor L st")
  case (Pair r1 st1)
  note oc = open_cursor_effect [OF Pair]
  show ?thesis
  proof (cases r1)
    case (Inl e)
    with Pair assms have "st' = st1" by (auto simp: gather_def)
    with oc show ?thesis by auto
  next
    case (Inr cur)
    with Pair assms have "for_branches L cur q bs [] st1 = (r, st')" by (auto simp: gather_def)
    from for_branches_raised [OF this] oc show ?thesis by simp
  qed
qed

lemma gather_connect_fails:
  "connect_db L st = (Inl e, st1) \<Longrightarrow> gather L q bs st = (Inl e, st1)"
  by (simp add: gather_def open_cursor_def)

lemma gather_three:
  assumes "gather L q (branches q) st = (Inr answers, st')"
  shows "\<exists>c1 c2 c3. answers =
     [(u ''Historical'', u ''What is the historical context of: '' @ q, c1),
      (u ''Theoretical'', u ''What are the theoretical principles behind: '' @ q, c2),
      (u ''Practical'', u ''What practical examples or proofs exist for: '' @ q, c3)]"
proof -
  from gather_ok [OF assms] obtain rowss ctxs where
    g: "length rowss = length (branches q)" "map context_text rowss = map Inr ctxs"
    "answers = map2 (\<lambda>b c. (fst b, snd b, c)) (branches q) ctxs"
    by blast
  from g(1,2) have "length ctxs = 3"
    by (metis length_map branches_def length_Cons list.size(3) numeral_3_eq_3)
  then obtain c1 c2 c3 where "ctxs = [c1, c2, c3]"
    by (auto simp: numeral_3_eq_3 length_Suc_conv)
  with g(3) show ?thesis
    by (simp add: branches_def)
qed

lemma search_effect:
  assumes "meta_deep_search L q st = (r, st')"
  shows "stdout st' = stdout st"
proof -
  from assms obtain ra where "gather L q (branches q) st = (ra, st')"
    by (auto simp: meta_deep_search_def search_over_def split: prod.splits sum.splits)
  from gather_history [OF this] show ?thesis by simp
qed

lemma search_fst:
  "fst (meta_deep_search L q st) = map_sum id synthesize (fst (gather L q (branches q) st))"
  by (simp add: meta_deep_search_def search_over_def split: prod.splits sum.splits)

lemma main_cases:
  assumes "main L input st = (r, st')"
  obtains (search) e where "meta_deep_search L (strip input) st = (Inl e, st')" "r = Inl e"
  | (render) out e where "meta_deep_search L (strip input) st = (Inr out, st')"
      "render L out = Inl e" "r = Inl e"
  | (printed) out shown st1 where "meta_deep_search L (strip input) st = (Inr out, st1)"
      "render L out = Inr shown" "r = Inr ()" "st' = st1\<lparr>stdout := stdout st1 @ shown @ u ''\<newline>''\<rparr>"
  using assms
  by (auto simp: main_def rich_print_def split: prod.splits sum.splits)

lemma main_fst:
  "fst (main L input st) =
     (case fst (meta_deep_search L (strip input) st) of
        Inl e \<Rightarrow> Inl e
      | Inr out \<Rightarrow> (case render L out of Inl e \<Rightarrow> Inl e | Inr shown \<Rightarrow> Inr ()))"
  by (simp add: main_def rich_print_def split: prod.splits sum.splits)

lemma main_stdout:
  "stdout (snd (main L input st)) =
     stdout st @
     (case fst (meta_deep_search L (strip input) st) of
        Inl e \<Rightarrow> []
      | Inr out \<Rightarrow> (case render L out of Inl e \<Rightarrow> [] | Inr shown \<Rightarrow> shown @ u ''\<newline>''))"
  by (auto simp: main_def rich_print_def split: prod.splits sum.splits dest: search_effect)

lemma run_fst: "fst (run L input w) = (case fst (main L input (start w)) of Inl e \<Rightarrow> 1 | Inr _ \<Rightarrow> 0)"
  by (simp add: run_def split: prod.splits sum.splits)

lemma run_snd: "snd (run L input w) = snd (main L input (start w))"
  by (simp add: run_def split: prod.splits sum.splits)

lemma main_world:
  "world (snd (main L input st)) = world (snd (meta_deep_search L (strip input) st))"
  by (simp add: main_def rich_print_def split: prod.splits sum.splits)

section \<open>Runs on the test libraries\<close>

lemma test_library_paths:
  "DB_PATH (test_library opened fetch) = u ''/home/axiom/.axiomhive/axiom.kuzu''"
  "os_path_dirname (test_library opened fetch) (DB_PATH (test_library opened fetch)) =
     u ''/home/axiom/.axiomhive''"
  by (simp_all add: DB_PATH_def test_library_def u_def)

lemma gather_no_rows:
  "gather (test_library (Inr ()) (always [])) q (branches q) (start ()) =
     (Inr [(u ''Historical'', u ''What is the historical context of: '' @ q, no_evidence),
           (u ''Theoretical'', u ''What are the theoretical principles behind: '' @ q, no_evidence),
           (u ''Practical'', u ''What practical examples or proofs exist for: '' @ q, no_evidence)],
      \<lparr>world = (), history = ok_events q [] @ ok_events q [] @ ok_events q [], stdout = []\<rparr>)"
  by (simp add: gather_def open_cursor_def connect_db_def
      call_def test_library_def always_def branches_def branch_step_def execute_def fetchall_def
      record_event_def context_text_def start_def ok_events_def)

lemma search_no_rows:
  "meta_deep_search (test_library (Inr ()) (always [])) (u ''gravity'') (start ()) =
     (Inr (u ''Tree-of-Thoughts Synthesis:\<newline>[bold red]Historical[/]: (no local evidence found)\<newline>[bold red]Theoretical[/]: (no local evidence found)\<newline>[bold red]Practical[/]: (no local evidence found)''),
      \<lparr>world = (), history = ok_events (u ''gravity'') [] @ ok_events (u ''gravity'') [] @ ok_events (u ''gravity'') [], stdout = []\<rparr>)"
  by (simp add: meta_deep_search_def search_over_def gather_no_rows synthesize_def synthesis_def
      answer_line_def bold_red_def no_evidence_def) (simp add: u_def)

lemma gather_rows_ab:
  "gather (test_library (Inr ()) (always [[a], [b]])) q (branches q) (start ()) =
     (Inr [(u ''Historical'', u ''What is the historical context of: '' @ q, a @ u ''\<newline>'' @ b),
           (u ''Theoretical'', u ''What are the theoretical principles behind: '' @ q, a @ u ''\<newline>'' @ b),
           (u ''Practical'', u ''What practical examples or proofs exist for: '' @ q, a @ u ''\<newline>'' @ b)],
      \<lparr>world = (), history = ok_events q [[a], [b]] @ ok_events q [[a], [b]] @ ok_events q [[a], [b]], stdout = []\<rparr>)"
  by (simp add: gather_def open_cursor_def connect_db_def
      call_def test_library_def always_def branches_def branch_step_def execute_def fetchall_def
      record_event_def context_text_def start_def ok_events_def row0_def)

lemma search_two_rows:
  "meta_deep_search (test_library (Inr ()) (always [[u ''gravity bends light''], [u ''zero gravity'']]))
      (u ''gravity'') (start ()) =
     (Inr (u ''Tree-of-Thoughts Synthesis:\<newline>[bold red]Historical[/]: gravity bends light\<newline>zero gravity\<newline>[bold red]Theoretical[/]: gravity bends light\<newline>zero gravity\<newline>[bold red]Practical[/]: gravity bends light\<newline>zero gravity''),
      \<lparr>world = (),
       history = ok_events (u ''gravity'') [[u ''gravity bends light''], [u ''zero gravity'']] @
         ok_events (u ''gravity'') [[u ''gravity bends light''], [u ''zero gravity'']] @
         ok_events (u ''gravity'') [[u ''gravity bends light''], [u ''zero gravity'']],
       stdout = []\<rparr>)"
  by (simp add: meta_deep_search_def search_over_def gather_rows_ab synthesize_def synthesis_def
      answer_line_def bold_red_def) (simp add: u_def)

lemma strip_gravity: "strip (u '' gravity\<newline>'') = u ''gravity''"
  by (simp add: strip_def lstrip_def rstrip_def u_def isspace_def)

lemma main_query_fails:
  "main (test_library (Inr ()) scripted) (u '' gravity\<newline>'') (start [Inr [], Inl QueryError]) =
     (Inl QueryError,
      \<lparr>world = [],
       history = [Execute knowledge_query [like_pattern (u ''gravity'')] None, Fetchall (Inr []),
                  Execute knowledge_query [like_pattern (u ''gravity'')] None, Fetchall (Inl QueryError)],
       stdout = []\<rparr>)"
  by (simp add: main_def strip_gravity meta_deep_search_def search_over_def gather_def
      open_cursor_def connect_db_def call_def test_library_def scripted_def branches_def
      branch_step_def execute_def fetchall_def record_event_def context_text_def start_def)

lemma connect_fails:
  "connect_db (test_library (Inl ConnectError) (always [])) (start ()) = (Inl ConnectError, start ())"
  by (simp add: connect_db_def call_def test_library_def start_def)

lemma always_answers:
  "answers_by (test_library opened (always rows)) (\<lambda>stmt params. Inr rows)"
  by (simp add: answers_by_def lookup_def test_library_def always_def)

lemma counting_fixed:
  "fixed_storage (test_library (Inr ()) (counting rows)) (Inr ()) (\<lambda>stmt params. Inr rows)"
  by (simp add: fixed_storage_def answers_by_def lookup_def open_cursor_def connect_db_def
      call_def test_library_def counting_def)

lemma counting_world:
  "world (snd (run (test_library (Inr ()) (counting [[a]])) q 0)) = 3"
  by (simp add: run_snd main_world meta_deep_search_def search_over_def gather_def
      open_cursor_def connect_db_def call_def test_library_def counting_def branches_def
      branch_step_def execute_def fetchall_def record_event_def start_def context_text_def
      row0_def)








section \<open>The branches\<close>

text \<open>
  Claim C2. For every text \<open>q\<close>, the empty one included, the list of branches has
  exactly three entries, labelled Historical, Theoretical and Practical in this order,
  and the sub-queries are the three fixed prefixes followed by \<open>q\<close>. Building the list
  raises nothing: \<open>branches\<close> returns a list, not a result that may be an exception.
  In a run that reaches the end of the loop, the answers carry these labels and
  sub-queries in the same order.
\<close>

theorem decomposition_fixed:
  "branches q =
     [(u ''Historical'', u ''What is the historical context of: '' @ q),
      (u ''Theoretical'', u ''What are the theoretical principles behind: '' @ q),
      (u ''Practical'', u ''What practical examples or proofs exist for: '' @ q)] \<and>
   length (branches q) = 3 \<and>
   map fst (branches q) = [u ''Historical'', u ''Theoretical'', u ''Practical''] \<and>
   branches [] =
     [(u ''Historical'', u ''What is the historical context of: ''),
      (u ''Theoretical'', u ''What are the theoretical principles behind: ''),
      (u ''Practical'', u ''What practical examples or proofs exist for: '')] \<and>
   (gather L q (branches q) st = (Inr answers, st') \<longrightarrow>
      map (\<lambda>a. (fst a, fst (snd a))) answers = branches q)"
proof -
  have "map (\<lambda>a. (fst a, fst (snd a))) answers = branches q"
    if "gather L q (branches q) st = (Inr answers, st')"
  proof -
    from gather_ok [OF that] obtain rowss ctxs where
      "length rowss = length (branches q)" "map context_text rowss = map Inr ctxs"
      "answers = map2 (\<lambda>b c. (fst b, snd b, c)) (branches q) ctxs"
      by blast
    moreover from this have "length ctxs = length (branches q)"
      by (metis length_map)
    ultimately show ?thesis
      by (simp add: map_zip_map2 o_def split_def  map_fst_zip flip: zip_map_fst_snd) 
  qed
  then show ?thesis by (simp add: branches_def)
qed

text \<open>The run on the query \<open>gravity\<close>, against a storage without matching rows.\<close>

theorem decomposition_fixed_witness:
  "map (\<lambda>a. (fst a, fst (snd a)))
     (projr (fst (gather (test_library (Inr ()) (always [])) (u ''gravity'')
        (branches (u ''gravity'')) (start ())))) =
     [(u ''Historical'', u ''What is the historical context of: gravity''),
      (u ''Theoretical'', u ''What are the theoretical principles behind: gravity''),
      (u ''Practical'', u ''What practical examples or proofs exist for: gravity'')]"
proof -
  let ?L = "test_library (Inr ()) (always [])"
  let ?g = "gather ?L (u ''gravity'') (branches (u ''gravity'')) (start ())"
  have run: "?g = (Inr (projr (fst ?g)), snd ?g)"
    by (simp add: gather_no_rows)
  have lit: "u ''What is the historical context of: '' @ u ''gravity'' =
        u ''What is the historical context of: gravity''"
      "u ''What are the theoretical principles behind: '' @ u ''gravity'' =
        u ''What are the theoretical principles behind: gravity''"
      "u ''What practical examples or proofs exist for: '' @ u ''gravity'' =
        u ''What practical examples or proofs exist for: gravity''"
    by (simp_all add: u_def)
  from decomposition_fixed [of "u ''gravity''" ?L "start ()" "projr (fst ?g)" "snd ?g"] run
  have "map (\<lambda>a. (fst a, fst (snd a))) (projr (fst ?g)) = branches (u ''gravity'')"
    by blast
  then show ?thesis
    by (simp add: branches_def lit)
qed

section \<open>The requests to the storage\<close>

text \<open>
  Claim C1. Whatever the query \<open>q\<close> and however the run ends, every statement the
  search executes is the one statement with \<open>LIMIT 5\<close>, and its only parameter is the
  pattern \<open>"%" + q + "%"\<close> built from the query as given: the statements executed are
  \<open>n\<close> copies of this request, \<open>n\<close> at most 3, and exactly 3 when the search returns.
  The pattern is never the sub-query text of a branch.
\<close>

theorem lookups_use_original_query:
  "meta_deep_search L q st = (r, st') \<Longrightarrow>
     (\<exists>evs n. history st' = history st @ evs \<and> n \<le> 3 \<and>
        lookups evs =
          replicate n (u ''MATCH (n:Knowledge) WHERE n.text LIKE ? RETURN n LIMIT 5'',
                       [u ''%'' @ q @ u ''%'']) \<and>
        ((\<exists>out. r = Inr out) \<longrightarrow> n = 3)) \<and>
     (\<forall>b \<in> set (branches q). u ''%'' @ q @ u ''%'' \<noteq> snd b)"
proof
  assume run: "meta_deep_search L q st = (r, st')"
  obtain ra where g: "gather L q (branches q) st = (ra, st')" and
    ok: "(\<exists>out. r = Inr out) \<longrightarrow> (\<exists>x. ra = Inr x)"
    using run
    by (auto simp: meta_deep_search_def search_over_def split: prod.splits sum.splits)
  have len: "length (branches q) = 3" by (simp add: branches_def)
  from gather_history [OF g] ok
  show "\<exists>evs n. history st' = history st @ evs \<and> n \<le> 3 \<and>
        lookups evs =
          replicate n (u ''MATCH (n:Knowledge) WHERE n.text LIKE ? RETURN n LIMIT 5'',
                       [u ''%'' @ q @ u ''%'']) \<and>
        ((\<exists>out. r = Inr out) \<longrightarrow> n = 3)"
    unfolding len knowledge_query_def like_pattern_def by blast
next
  show "\<forall>b \<in> set (branches q). u ''%'' @ q @ u ''%'' \<noteq> snd b"
  proof
    fix b
    assume "b \<in> set (branches q)"
    then have "length (u ''%'' @ q @ u ''%'') \<noteq> length (snd b)"
      by (auto simp: branches_def u_def)
    then show "u ''%'' @ q @ u ''%'' \<noteq> snd b"
      by (rule contrapos_nn) simp
  qed
qed

text \<open>The three requests of the run on \<open>gravity\<close>.\<close>

theorem lookups_use_original_query_witness:
  "lookups (history (snd (meta_deep_search (test_library (Inr ()) (always [])) (u ''gravity'') (start ())))) =
     [(u ''MATCH (n:Knowledge) WHERE n.text LIKE ? RETURN n LIMIT 5'', [u ''%gravity%'']),
      (u ''MATCH (n:Knowledge) WHERE n.text LIKE ? RETURN n LIMIT 5'', [u ''%gravity%'']),
      (u ''MATCH (n:Knowledge) WHERE n.text LIKE ? RETURN n LIMIT 5'', [u ''%gravity%''])] \<and>
   u ''%gravity%'' \<notin> set (map snd (branches (u ''gravity'')))"
proof -
  let ?L = "test_library (Inr ()) (always [])"
  let ?run = "meta_deep_search ?L (u ''gravity'') (start ())"
  have ok: "\<exists>out. fst ?run = Inr out"
    by (simp add: meta_deep_search_def search_over_def gather_no_rows)
  have pat: "u ''%'' @ u ''gravity'' @ u ''%'' = u ''%gravity%''"
    by (simp add: u_def)
  from lookups_use_original_query [of ?L "u ''gravity''" "start ()" "fst ?run" "snd ?run"] ok
  show ?thesis
    by (auto simp: history_start pat numeral_3_eq_3)
qed

section \<open>The evidence text\<close>

lemma first_columns_all:
  "\<forall>r \<in> set rows. r \<noteq> [] \<Longrightarrow> first_columns rows = Inr (map hd rows)"
  by (induction rows) (auto simp: row0_def split: list.splits)

lemma fetched_ok_events:
  "fetched (concat (map (ok_events q) rowss)) = rowss"
  by (induction rowss) (simp_all add: ok_events_def)

text \<open>
  Claim C3. The evidence text of no rows is the sentinel \<open>(no local evidence found)\<close>,
  a value and not an exception. The evidence text of a non-empty sequence of rows, each
  with a column 0, is the texts in column 0 joined by line feeds; the rows \<open>a\<close> and \<open>b\<close>
  give \<open>a\<close>, a line feed, \<open>b\<close>. In a run that reaches the end of the loop there is one
  fetch for every branch, and the evidence text of each branch is the evidence text of
  the rows fetched for it.
\<close>

theorem evidence_text_join_or_sentinel:
  "context_text [] = Inr (u ''(no local evidence found)'') \<and>
   (rows \<noteq> [] \<and> (\<forall>r \<in> set rows. r \<noteq> []) \<longrightarrow>
      context_text rows = Inr (join (u ''\<newline>'') (map hd rows))) \<and>
   context_text [[a], [b]] = Inr (a @ u ''\<newline>'' @ b) \<and>
   (gather L q bs st = (Inr answers, st') \<longrightarrow>
      (\<exists>evs. history st' = history st @ evs \<and> length (fetched evs) = length bs \<and>
         map Inr (evidence answers) = map context_text (fetched evs)))"
proof -
  have "\<exists>evs. history st' = history st @ evs \<and> length (fetched evs) = length bs \<and>
         map Inr (evidence answers) = map context_text (fetched evs)"
    if "gather L q bs st = (Inr answers, st')"
  proof -
    from gather_ok [OF that] obtain rowss ctxs where
      g: "length rowss = length bs" "map context_text rowss = map Inr ctxs"
      "answers = map2 (\<lambda>b c. (fst b, snd b, c)) bs ctxs"
      "history st' = history st @ concat (map (ok_events q) rowss)"
      by blast
    from g(1,2) have len: "length ctxs = length bs"
      by (metis length_map)
    have "evidence answers = ctxs"
      unfolding evidence_def g(3) using len
      by (simp add: map_zip_map2 o_def split_def map_snd_zip)
    with g show ?thesis
      by (auto simp: fetched_ok_events)
  qed
  then show ?thesis
    by (simp add: context_text_def no_evidence_def first_columns_all row0_def)
qed

text \<open>The rows \<open>a\<close> and \<open>b\<close>, and the run in which every fetch returns them.\<close>

theorem evidence_text_join_or_sentinel_witness:
  "context_text [[u ''a''], [u ''b'']] = Inr (u ''a\<newline>b'') \<and>
   map Inr (evidence (projr (fst (gather (test_library (Inr ()) (always [[u ''a''], [u ''b'']]))
      (u ''gravity'') (branches (u ''gravity'')) (start ()))))) =
     [Inr (u ''a\<newline>b''), Inr (u ''a\<newline>b''), Inr (u ''a\<newline>b'') :: error + pystr]"
proof -
  let ?rows = "[[u ''a''], [u ''b'']]"
  let ?L = "test_library (Inr ()) (always ?rows)"
  let ?g = "gather ?L (u ''gravity'') (branches (u ''gravity'')) (start ())"
  have run: "?g = (Inr (projr (fst ?g)), snd ?g)"
    by (simp add: gather_rows_ab)
  have h: "history (snd ?g) = ok_events (u ''gravity'') ?rows @ ok_events (u ''gravity'') ?rows @
      ok_events (u ''gravity'') ?rows"
    by (simp add: gather_rows_ab)
  have lit: "u ''a'' @ u ''\<newline>'' @ u ''b'' = u ''a\<newline>b''"
    by (simp add: u_def)
  have rows: "?rows \<noteq> [] \<and> (\<forall>r \<in> set ?rows. r \<noteq> [])"
    by simp
  from evidence_text_join_or_sentinel
    [of ?rows "u ''a''" "u ''b''" ?L "u ''gravity''" "branches (u ''gravity'')" "start ()"
      "projr (fst ?g)" "snd ?g"] run rows
  have ctx: "context_text ?rows = Inr (join (u ''\<newline>'') (map hd ?rows))" and
    ev: "\<exists>evs. history (snd ?g) = history (start ()) @ evs \<and>
           map Inr (evidence (projr (fst ?g))) = map context_text (fetched evs)"
    by blast+
  from ev have "map Inr (evidence (projr (fst ?g))) = map context_text (fetched (history (snd ?g)))"
    by (auto simp: history_start)
  with ctx show ?thesis
    by (simp add: h ok_events_def lit)
qed

section \<open>Evidence from the storage accessor\<close>

lemma found_rows:
  "length (found matches w q) \<le> 5"
  "row \<in> set (found matches w q) \<Longrightarrow> \<exists>t \<in> set (knowledge w). row = [t] \<and> matches (like_pattern q) t"
  by (auto simp: found_def query_substring_def dest!: in_set_takeD)

lemma found_none:
  "\<forall>t \<in> set (knowledge w). \<not> matches (like_pattern q) t \<Longrightarrow> found matches w q = []"
  by (auto simp: found_def query_substring_def filter_empty_conv)

lemma found_same: "knowledge w' = knowledge w \<Longrightarrow> found matches w' q = found matches w q"
  by (simp add: found_def query_substring_def)

lemma context_text_found: "\<exists>ctx. context_text (found matches w q) = Inr ctx"
  by (simp add: context_text_def found_def first_columns_all)

lemma storage_branch_step:
  assumes "context_text (found matches (world st) q) = Inr ctx"
  shows "branch_step (storage_library matches opened) cur q b as st =
     (Inr (as @ [(fst b, snd b, ctx)]),
      st\<lparr>world := (world st)\<lparr>result_set := found matches (world st) q\<rparr>,
         history := history st @ ok_events q (found matches (world st) q)\<rparr>)"
  using assms
  by (simp add: branch_step_def execute_def fetchall_def call_def record_event_def
      storage_library_def test_library_def found_def ok_events_def split_def)

lemma storage_for_branches:
  assumes "context_text (found matches w q) = Inr ctx"
  shows "knowledge (world st) = knowledge w \<Longrightarrow>
     \<exists>st'. for_branches (storage_library matches opened) cur q bs as st =
              (Inr (as @ map (\<lambda>b. (fst b, snd b, ctx)) bs), st') \<and>
        history st' = history st @ concat (replicate (length bs) (ok_events q (found matches w q)))"
proof (induction bs arbitrary: as st)
  case Nil
  show ?case by simp
next
  case (Cons b bs)
  let ?st1 = "st\<lparr>world := (world st)\<lparr>result_set := found matches (world st) q\<rparr>,
         history := history st @ ok_events q (found matches (world st) q)\<rparr>"
  from Cons.prems have f: "found matches (world st) q = found matches w q"
    by (rule found_same)
  with assms have "context_text (found matches (world st) q) = Inr ctx" by simp
  from storage_branch_step [OF this]
  have step: "branch_step (storage_library matches opened) cur q b as st =
     (Inr (as @ [(fst b, snd b, ctx)]), ?st1)" .
  have "knowledge (world ?st1) = knowledge w"
    using Cons.prems by simp
  from Cons.IH [OF this, of "as @ [(fst b, snd b, ctx)]"] obtain st' where
    "for_branches (storage_library matches opened) cur q bs (as @ [(fst b, snd b, ctx)]) ?st1 =
       (Inr ((as @ [(fst b, snd b, ctx)]) @ map (\<lambda>b. (fst b, snd b, ctx)) bs), st')"
    "history st' = history ?st1 @ concat (replicate (length bs) (ok_events q (found matches w q)))"
    by blast
  with step f show ?case by simp
qed

lemma storage_open_cursor:
  "open_cursor (storage_library matches opened) st = (opened, st)"
  by (cases opened)
    (simp_all add: open_cursor_def connect_db_def call_def storage_library_def test_library_def)

lemma lookups_ok_events:
  "lookups (concat (replicate n (ok_events q rows))) = replicate n (knowledge_query, [like_pattern q])"
  by (induction n) (simp_all add: ok_events_def lookups_append)

lemma fetched_replicate:
  "fetched (concat (replicate n (ok_events q rows))) = replicate n rows"
  by (induction n) (simp_all add: ok_events_def fetched_append)

lemma storage_gather:
  "gather (storage_library matches opened) q bs st = (r, st') \<Longrightarrow>
     \<exists>ctx n. context_text (found matches (world st) q) = Inr ctx \<and>
        history st' = history st @ concat (replicate n (ok_events q (found matches (world st) q))) \<and>
        (case opened of
           Inl e \<Rightarrow> r = Inl e \<and> n = 0
         | Inr _ \<Rightarrow> r = Inr (map (\<lambda>b. (fst b, snd b, ctx)) bs) \<and> n = length bs)"
proof -
  assume g: "gather (storage_library matches opened) q bs st = (r, st')"
  obtain ctx where c: "context_text (found matches (world st) q) = Inr ctx"
    using context_text_found by blast
  show ?thesis
  proof (cases opened)
    case (Inl e)
    with g have "r = Inl e" "st' = st"
      by (simp_all add: gather_def storage_open_cursor)
    with c Inl show ?thesis
      by (intro exI [of _ ctx] exI [of _ 0]) simp
  next
    case (Inr x)
    from storage_for_branches [OF c refl, of opened "()" bs "[]"] obtain st''
      where "for_branches (storage_library matches opened) () q bs [] st =
              (Inr (map (\<lambda>b. (fst b, snd b, ctx)) bs), st'')"
        "history st'' = history st @ concat (replicate (length bs) (ok_events q (found matches (world st) q)))"
      by auto
    with g Inr have "r = Inr (map (\<lambda>b. (fst b, snd b, ctx)) bs)" "st' = st''"
      by (simp_all add: gather_def storage_open_cursor)
    with c Inr \<open>history st'' = _\<close> show ?thesis
      by (intro exI [of _ ctx] exI [of _ "length bs"]) simp
  qed
qed

lemma shelf_gravity:
  "query_substring wildcard_match shelf (u ''%'' @ u ''gravity'' @ u ''%'') 5 =
     [u ''gravity'', u ''a gravity b'', u ''gravity2'', u ''gravity3'', u ''gravity4'']"
  by (simp add: query_substring_def shelf_def u_def)

lemma shelf_entropy:
  "\<forall>t \<in> set (knowledge shelf). \<not> wildcard_match (u ''%'' @ u ''entropy'' @ u ''%'') t"
  by (simp add: shelf_def u_def)

text \<open>
  Claim C8. Over the storage accessor, however the run ends: every statement executed
  is the one with \<open>LIMIT 5\<close> and the pattern of the query; every fetch returns the rows
  of \<open>query_substring\<close> with limit 5, which are at most 5 and each the text of a
  \<open>Knowledge\<close> node that matches the pattern; no cursor call raises. When the loop ends,
  the three evidence texts are built from the three fetches. When the storage opens and
  no text matches, every fetch returns the empty sequence, the run does not fail, and
  every evidence text is the sentinel.
\<close>

theorem evidence_from_at_most_five_rows:
  "gather (storage_library matches opened) q (branches q) st = (r, st') \<Longrightarrow>
     \<exists>evs. history st' = history st @ evs \<and>
       (\<forall>l \<in> set (lookups evs).
          l = (u ''MATCH (n:Knowledge) WHERE n.text LIKE ? RETURN n LIMIT 5'', [u ''%'' @ q @ u ''%''])) \<and>
       (\<forall>rows \<in> set (fetched evs).
          rows = map (\<lambda>t. [t]) (query_substring matches (world st) (u ''%'' @ q @ u ''%'') 5) \<and>
          length rows \<le> 5 \<and>
          (\<forall>row \<in> set rows. \<exists>t \<in> set (knowledge (world st)).
             row = [t] \<and> matches (u ''%'' @ q @ u ''%'') t)) \<and>
       (\<forall>ev \<in> set evs. raised ev = None) \<and>
       (\<forall>answers. r = Inr answers \<longrightarrow>
          length (fetched evs) = 3 \<and>
          map Inr (evidence answers) = map context_text (fetched evs)) \<and>
       (opened = Inr () \<and> (\<forall>t \<in> set (knowledge (world st)). \<not> matches (u ''%'' @ q @ u ''%'') t) \<longrightarrow>
          fetched evs = [[], [], []] \<and>
          r = Inr (map (\<lambda>b. (fst b, snd b, u ''(no local evidence found)'')) (branches q)))"
proof -
  assume g: "gather (storage_library matches opened) q (branches q) st = (r, st')"
  let ?R = "found matches (world st) q"
  from storage_gather [OF g] obtain ctx n where
    c: "context_text ?R = Inr ctx" and
    h: "history st' = history st @ concat (replicate n (ok_events q ?R))" and
    o: "case opened of
           Inl e \<Rightarrow> r = Inl e \<and> n = 0
         | Inr _ \<Rightarrow> r = Inr (map (\<lambda>b. (fst b, snd b, ctx)) (branches q)) \<and> n = length (branches q)"
    by blast
  let ?evs = "concat (replicate n (ok_events q ?R))"
  have len: "length (branches q) = 3" by (simp add: branches_def)
  have 1: "\<forall>l \<in> set (lookups ?evs).
          l = (u ''MATCH (n:Knowledge) WHERE n.text LIKE ? RETURN n LIMIT 5'', [u ''%'' @ q @ u ''%''])"
    by (simp add: lookups_ok_events knowledge_query_def like_pattern_def)
  have 2: "\<forall>rows \<in> set (fetched ?evs).
          rows = map (\<lambda>t. [t]) (query_substring matches (world st) (u ''%'' @ q @ u ''%'') 5) \<and>
          length rows \<le> 5 \<and>
          (\<forall>row \<in> set rows. \<exists>t \<in> set (knowledge (world st)).
             row = [t] \<and> matches (u ''%'' @ q @ u ''%'') t)"
    using found_rows(1) [of matches "world st" q]
      found_rows(2) [where matches = matches and w = "world st" and q = q]
    by (auto simp: fetched_replicate found_def like_pattern_def)
  have 3: "\<forall>ev \<in> set ?evs. raised ev = None"
    by (auto simp: ok_events_def)
  have 4: "\<forall>answers. r = Inr answers \<longrightarrow>
          length (fetched ?evs) = 3 \<and>
          map Inr (evidence answers) = map context_text (fetched ?evs)"
    unfolding fetched_replicate using o c len
    by (cases opened) (auto simp: evidence_def branches_def numeral_3_eq_3)
  have 5: "fetched ?evs = [[], [], []] \<and>
          r = Inr (map (\<lambda>b. (fst b, snd b, u ''(no local evidence found)'')) (branches q))"
    if "opened = Inr ()" "\<forall>t \<in> set (knowledge (world st)). \<not> matches (u ''%'' @ q @ u ''%'') t"
  proof -
    from that(2) have e: "?R = []"
      by (intro found_none) (simp add: like_pattern_def)
    with c have "ctx = u ''(no local evidence found)''"
      by (simp add: context_text_def no_evidence_def)
    with o that(1) e len show ?thesis
      unfolding fetched_replicate by (simp add: numeral_3_eq_3)
  qed
  from h 1 2 3 4 5 show ?thesis
    by (intro exI [of _ ?evs]) blast
qed

text \<open>
  On the database \<open>shelf\<close>: the query \<open>gravity\<close> matches six texts and every fetch
  returns the first five; the query \<open>entropy\<close> matches none.
\<close>

theorem evidence_from_at_most_five_rows_witness:
  "fetched (history (snd (gather (storage_library wildcard_match (Inr ())) (u ''gravity'')
      (branches (u ''gravity'')) (start shelf)))) =
     [[[u ''gravity''], [u ''a gravity b''], [u ''gravity2''], [u ''gravity3''], [u ''gravity4'']],
      [[u ''gravity''], [u ''a gravity b''], [u ''gravity2''], [u ''gravity3''], [u ''gravity4'']],
      [[u ''gravity''], [u ''a gravity b''], [u ''gravity2''], [u ''gravity3''], [u ''gravity4'']]] \<and>
   fetched (history (snd (gather (storage_library wildcard_match (Inr ())) (u ''entropy'')
      (branches (u ''entropy'')) (start shelf)))) = [[], [], []] \<and>
   fst (gather (storage_library wildcard_match (Inr ())) (u ''entropy'')
      (branches (u ''entropy'')) (start shelf)) =
     Inr [(u ''Historical'', u ''What is the historical context of: entropy'', u ''(no local evidence found)''),
          (u ''Theoretical'', u ''What are the theoretical principles behind: entropy'', u ''(no local evidence found)''),
          (u ''Practical'', u ''What practical examples or proofs exist for: entropy'', u ''(no local evidence found)'')]"
proof -
  let ?L = "storage_library wildcard_match (Inr ())"
  let ?g = "gather ?L (u ''gravity'') (branches (u ''gravity'')) (start shelf)"
  let ?e = "gather ?L (u ''entropy'') (branches (u ''entropy'')) (start shelf)"
  let ?R = "[[u ''gravity''], [u ''a gravity b''], [u ''gravity2''], [u ''gravity3''], [u ''gravity4'']]"
  have ok: "\<exists>answers. fst ?g = Inr answers"
    using storage_gather [of wildcard_match "Inr ()" "u ''gravity''" "branches (u ''gravity'')"
        "start shelf" "fst ?g" "snd ?g"]
    by auto
  have "?g = (fst ?g, snd ?g)" by simp
  from evidence_from_at_most_five_rows [OF this]
  obtain evs where
    h: "history (snd ?g) = history (start shelf) @ evs" and
    rows: "\<forall>rows \<in> set (fetched evs).
       rows = map (\<lambda>t. [t]) (query_substring wildcard_match (world (start shelf))
                (u ''%'' @ u ''gravity'' @ u ''%'') 5)" and
    three: "\<forall>answers. fst ?g = Inr answers \<longrightarrow> length (fetched evs) = 3"
    by blast
  from three ok have "length (fetched evs) = 3" by blast
  then obtain r1 r2 r3 where f: "fetched evs = [r1, r2, r3]"
    by (auto simp: numeral_3_eq_3 length_Suc_conv)
  with rows have "fetched evs = [?R, ?R, ?R]"
    by (simp add: history_start shelf_gravity)
  with h have a: "fetched (history (snd ?g)) = [?R, ?R, ?R]"
    by (simp add: history_start)
  have "?e = (fst ?e, snd ?e)" by simp
  from evidence_from_at_most_five_rows [OF this]
  obtain evs' where
    h': "history (snd ?e) = history (start shelf) @ evs'" and
    n': "Inr () = (Inr () :: error + unit) \<and>
         (\<forall>t \<in> set (knowledge (world (start shelf))).
             \<not> wildcard_match (u ''%'' @ u ''entropy'' @ u ''%'') t) \<longrightarrow>
       fetched evs' = [[], [], []] \<and>
       fst ?e = Inr (map (\<lambda>b. (fst b, snd b, u ''(no local evidence found)'')) (branches (u ''entropy'')))"
    by blast
  from n' shelf_entropy have
    "fetched evs' = [[], [], []]"
    "fst ?e = Inr (map (\<lambda>b. (fst b, snd b, u ''(no local evidence found)'')) (branches (u ''entropy'')))"
    by (simp_all add: history_start)
  with h' have b: "fetched (history (snd ?e)) = [[], [], []]" and
    c: "fst ?e = Inr (map (\<lambda>b. (fst b, snd b, u ''(no local evidence found)'')) (branches (u ''entropy'')))"
    by (simp_all add: history_start)
  have lit: "u ''What is the historical context of: '' @ u ''entropy'' =
        u ''What is the historical context of: entropy''"
      "u ''What are the theoretical principles behind: '' @ u ''entropy'' =
        u ''What are the theoretical principles behind: entropy''"
      "u ''What practical examples or proofs exist for: '' @ u ''entropy'' =
        u ''What practical examples or proofs exist for: entropy''"
    by (simp_all add: u_def)
  from a b c show ?thesis
    by (simp add: branches_def lit)
qed

section \<open>Branches with the same evidence\<close>

lemma branch_step_lookup:
  "fst (branch_step L cur q b as st) =
     (case fst (lookup L cur knowledge_query [like_pattern q] (world st)) of
        Inl e \<Rightarrow> Inl e
      | Inr rows \<Rightarrow>
          (case context_text rows of
             Inl e \<Rightarrow> Inl e
           | Inr ctx \<Rightarrow> Inr (as @ [(fst b, snd b, ctx)])))"
  by (auto simp: branch_step_def execute_def fetchall_def call_def lookup_def record_event_def
      split: prod.splits sum.splits)

lemma branch_step_by_response:
  "answers_by L response \<Longrightarrow>
     fst (branch_step L cur q b as st) =
       (case response knowledge_query [like_pattern q] of
          Inl e \<Rightarrow> Inl e
        | Inr rows \<Rightarrow>
            (case context_text rows of
               Inl e \<Rightarrow> Inl e
             | Inr ctx \<Rightarrow> Inr (as @ [(fst b, snd b, ctx)])))"
  by (simp add: branch_step_lookup answers_by_def)

lemma for_branches_same_rows:
  assumes "answers_by L response"
  shows "for_branches L cur q bs as st = (Inr as', st') \<Longrightarrow> bs \<noteq> [] \<Longrightarrow>
     \<exists>rows ctx. response knowledge_query [like_pattern q] = Inr rows \<and>
        context_text rows = Inr ctx \<and> as' = as @ map (\<lambda>b. (fst b, snd b, ctx)) bs"
proof (induction bs arbitrary: as st)
  case Nil
  then show ?case by simp
next
  case (Cons b bs)
  from Cons.prems obtain as1 st1 where
    step: "branch_step L cur q b as st = (Inr as1, st1)" and
    rest: "for_branches L cur q bs as1 st1 = (Inr as', st')"
    by (auto split: prod.splits sum.splits)
  from step have "fst (branch_step L cur q b as st) = Inr as1" by simp
  then obtain rows ctx where
    r: "response knowledge_query [like_pattern q] = Inr rows" "context_text rows = Inr ctx"
       "as1 = as @ [(fst b, snd b, ctx)]"
    unfolding branch_step_by_response [OF assms]
    by (auto split: sum.splits)
  show ?case
  proof (cases "bs = []")
    case True
    with rest r show ?thesis by auto
  next
    case False
    from Cons.IH [OF rest False] r show ?thesis by auto
  qed
qed

lemma branch_step_labels:
  assumes "fst b = fst b'" "map label_and_evidence as = map label_and_evidence as'"
  shows "snd (branch_step L cur q b as st) = snd (branch_step L cur q b' as' st) \<and>
         rel_sum (=) (\<lambda>x y. map label_and_evidence x = map label_and_evidence y)
           (fst (branch_step L cur q b as st)) (fst (branch_step L cur q b' as' st))"
  using assms
  by (auto simp: branch_step_def label_and_evidence_def split: prod.splits sum.splits)

lemma for_branches_labels:
  "map fst bs = map fst bs' \<Longrightarrow> map label_and_evidence as = map label_and_evidence as' \<Longrightarrow>
     snd (for_branches L cur q bs as st) = snd (for_branches L cur q bs' as' st) \<and>
     rel_sum (=) (\<lambda>x y. map label_and_evidence x = map label_and_evidence y)
       (fst (for_branches L cur q bs as st)) (fst (for_branches L cur q bs' as' st))"
proof (induction bs arbitrary: bs' as as' st)
  case Nil
  then show ?case by simp
next
  case (Cons b bs)
  from Cons.prems(1) obtain b' bs1 where
    bs': "bs' = b' # bs1" "fst b = fst b'" "map fst bs = map fst bs1"
    by (cases bs') auto
  obtain r1 st1 where s1: "branch_step L cur q b as st = (r1, st1)"
    by (cases "branch_step L cur q b as st")
  obtain r2 st2 where s2: "branch_step L cur q b' as' st = (r2, st2)"
    by (cases "branch_step L cur q b' as' st")
  from branch_step_labels [OF bs'(2) Cons.prems(2), of L cur q st] s1 s2 have
    st: "st2 = st1" and
    rel: "rel_sum (=) (\<lambda>x y. map label_and_evidence x = map label_and_evidence y) r1 r2"
    by simp_all
  show ?case
  proof (cases r1)
    case (Inl e)
    with rel have "r2 = Inl e" by (cases r2) simp_all
    with Inl s1 s2 st bs' show ?thesis by simp
  next
    case (Inr x)
    with rel obtain y where y: "r2 = Inr y" "map label_and_evidence x = map label_and_evidence y"
      by (cases r2) simp_all
    with Inr s1 s2 st bs' Cons.IH [OF bs'(3) y(2), of st1] show ?thesis by simp
  qed
qed

lemma synthesize_labels:
  "map label_and_evidence x = map label_and_evidence y \<Longrightarrow> synthesize x = synthesize y"
proof -
  assume eq: "map label_and_evidence x = map label_and_evidence y"
  have "map answer_line z = map (\<lambda>p. bold_red (fst p) @ u '': '' @ snd p) (map label_and_evidence z)" for z
    by (simp add: answer_line_def label_and_evidence_def split_def)
  then have "map answer_line x = map answer_line y"
    by (simp only: eq)
  then show "synthesize x = synthesize y"
    by (simp only: synthesize_def synthesis_def)
qed

lemma search_over_labels:
  assumes "map fst bs = map fst bs'"
  shows "search_over L q bs st = search_over L q bs' st"
proof (cases "open_cursor L st")
  case (Pair r1 st1)
  show ?thesis
  proof (cases r1)
    case (Inl e)
    with Pair show ?thesis by (simp add: search_over_def gather_def)
  next
    case (Inr cur)
    obtain ra sa where a: "for_branches L cur q bs [] st1 = (ra, sa)"
      by (cases "for_branches L cur q bs [] st1")
    obtain rb sb where b: "for_branches L cur q bs' [] st1 = (rb, sb)"
      by (cases "for_branches L cur q bs' [] st1")
    from for_branches_labels [OF assms, of "[]" "[]" L cur q st1] a b have
      "sb = sa" "rel_sum (=) (\<lambda>x y. map label_and_evidence x = map label_and_evidence y) ra rb"
      by simp_all
    then show ?thesis
      using Pair Inr a b
      by (cases ra; cases rb) (auto simp: search_over_def gather_def dest: synthesize_labels)
  qed
qed

text \<open>
  Claim C10. When the storage answers by a response function, the three evidence texts
  of a run that reaches the end of the loop are one and the same text: the evidence text
  of the rows the function gives for the one statement and the pattern of the query.
  And with any storage, the sub-query texts influence nothing: two lists of branches
  with the same labels give the same result, the same history of requests and the same
  world.
\<close>

theorem evidence_pairwise_equal:
  "(answers_by L response \<and> gather L q (branches q) st = (Inr answers, st') \<longrightarrow>
      (\<exists>rows ctx. response knowledge_query [like_pattern q] = Inr rows \<and>
         context_text rows = Inr ctx \<and> evidence answers = [ctx, ctx, ctx])) \<and>
   (map fst bs = map fst bs' \<longrightarrow> search_over L q bs st = search_over L q bs' st)"
proof (intro conjI impI)
  assume h: "answers_by L response \<and> gather L q (branches q) st = (Inr answers, st')"
  then obtain cur st1 where
    fb: "for_branches L cur q (branches q) [] st1 = (Inr answers, st')"
    by (auto simp: gather_def split: prod.splits sum.splits)
  have ne: "branches q \<noteq> []" by (simp add: branches_def)
  from for_branches_same_rows [OF _ fb ne, of response] h obtain rows ctx where
    "response knowledge_query [like_pattern q] = Inr rows" "context_text rows = Inr ctx"
    "answers = map (\<lambda>b. (fst b, snd b, ctx)) (branches q)"
    by auto
  then show "\<exists>rows ctx. response knowledge_query [like_pattern q] = Inr rows \<and>
         context_text rows = Inr ctx \<and> evidence answers = [ctx, ctx, ctx]"
    by (auto simp: evidence_def branches_def)
next
  assume "map fst bs = map fst bs'"
  then show "search_over L q bs st = search_over L q bs' st"
    by (rule search_over_labels)
qed

text \<open>
  The run in which every fetch returns the rows \<open>a\<close> and \<open>b\<close>, and the same run over
  branches with other sub-query texts.
\<close>

theorem evidence_pairwise_equal_witness:
  "evidence (projr (fst (gather (test_library (Inr ()) (always [[u ''a''], [u ''b'']]))
      (u ''gravity'') (branches (u ''gravity'')) (start ())))) =
     [u ''a\<newline>b'', u ''a\<newline>b'', u ''a\<newline>b''] \<and>
   search_over (test_library (Inr ()) (always [[u ''a''], [u ''b'']])) (u ''gravity'')
     [(u ''Historical'', u ''one''), (u ''Theoretical'', u ''two''), (u ''Practical'', u ''three'')]
     (start ()) =
   meta_deep_search (test_library (Inr ()) (always [[u ''a''], [u ''b'']])) (u ''gravity'') (start ())"
proof -
  let ?rows = "[[u ''a''], [u ''b'']]"
  let ?L = "test_library (Inr ()) (always ?rows)"
  let ?g = "gather ?L (u ''gravity'') (branches (u ''gravity'')) (start ())"
  let ?bs = "[(u ''Historical'', u ''one''), (u ''Theoretical'', u ''two''), (u ''Practical'', u ''three'')]"
  note inst = evidence_pairwise_equal
    [of ?L "\<lambda>stmt params. Inr ?rows" "u ''gravity''" "start ()" "projr (fst ?g)" "snd ?g"
      ?bs "branches (u ''gravity'')"]
  have run: "?g = (Inr (projr (fst ?g)), snd ?g)"
    by (simp add: gather_rows_ab)
  have ctx: "context_text ?rows = Inr (u ''a\<newline>b'')"
    by (simp add: context_text_def row0_def u_def)
  have labels: "map fst ?bs = map fst (branches (u ''gravity''))"
    by (simp add: branches_def)
  from inst always_answers [of "Inr ()" ?rows] run
  obtain rows c where
    "Inr ?rows = (Inr rows :: error + row list)" "context_text rows = Inr c"
    "evidence (projr (fst ?g)) = [c, c, c]"
    by blast
  with ctx have "evidence (projr (fst ?g)) = [u ''a\<newline>b'', u ''a\<newline>b'', u ''a\<newline>b'']"
    by simp
  moreover from inst labels
  have "search_over ?L (u ''gravity'') ?bs (start ()) =
        search_over ?L (u ''gravity'') (branches (u ''gravity'')) (start ())"
    by blast
  ultimately show ?thesis
    by (simp add: meta_deep_search_def)
qed

section \<open>The synthesis\<close>

text \<open>
  Claim C5. In a run that reaches the end of the loop, the search returns the header
  followed by the three lines joined by line feeds, and the line of each branch is its
  label, then \<open>": "\<close>, then its evidence text. The label stands inside the markup pair
  \<open>[bold red]\<close> ... \<open>[/]\<close>, which the printing library turns into the style of the label.
\<close>

theorem synthesis_line_format:
  "gather L q (branches q) st = (Inr answers, st') \<Longrightarrow>
     meta_deep_search L q st =
       (Inr (u ''Tree-of-Thoughts Synthesis:\<newline>'' @ join (u ''\<newline>'') (map answer_line answers)), st') \<and>
     length answers = 3 \<and>
     map answer_line answers =
       [bold_red (u ''Historical'') @ u '': '' @ evidence answers ! 0,
        bold_red (u ''Theoretical'') @ u '': '' @ evidence answers ! 1,
        bold_red (u ''Practical'') @ u '': '' @ evidence answers ! 2] \<and>
     bold_red lbl = u ''[bold red]'' @ lbl @ u ''[/]''"
proof -
  assume g: "gather L q (branches q) st = (Inr answers, st')"
  from gather_three [OF g] obtain c1 c2 c3 where
    a: "answers =
     [(u ''Historical'', u ''What is the historical context of: '' @ q, c1),
      (u ''Theoretical'', u ''What are the theoretical principles behind: '' @ q, c2),
      (u ''Practical'', u ''What practical examples or proofs exist for: '' @ q, c3)]"
    by blast
  have "meta_deep_search L q st =
       (Inr (u ''Tree-of-Thoughts Synthesis:\<newline>'' @ join (u ''\<newline>'') (map answer_line answers)), st')"
    by (simp add: meta_deep_search_def search_over_def g synthesize_def synthesis_def)
  moreover have "map answer_line answers =
       [bold_red (u ''Historical'') @ u '': '' @ evidence answers ! 0,
        bold_red (u ''Theoretical'') @ u '': '' @ evidence answers ! 1,
        bold_red (u ''Practical'') @ u '': '' @ evidence answers ! 2]"
    by (simp add: a answer_line_def evidence_def)
  moreover have "length answers = 3"
    by (simp add: a)
  ultimately show ?thesis
    by (simp add: bold_red_def)
qed

text \<open>The three lines of the run in which every fetch returns the rows \<open>a\<close> and \<open>b\<close>.\<close>

theorem synthesis_line_format_witness:
  "map answer_line (projr (fst (gather (test_library (Inr ()) (always [[u ''a''], [u ''b'']]))
      (u ''gravity'') (branches (u ''gravity'')) (start ())))) =
     [u ''[bold red]Historical[/]: a\<newline>b'', u ''[bold red]Theoretical[/]: a\<newline>b'',
      u ''[bold red]Practical[/]: a\<newline>b'']"
proof -
  let ?L = "test_library (Inr ()) (always [[u ''a''], [u ''b'']])"
  let ?g = "gather ?L (u ''gravity'') (branches (u ''gravity'')) (start ())"
  have run: "?g = (Inr (projr (fst ?g)), snd ?g)"
    by (simp add: gather_rows_ab)
  have ev: "evidence (projr (fst ?g)) = [u ''a\<newline>b'', u ''a\<newline>b'', u ''a\<newline>b'']"
    by (simp add: gather_rows_ab evidence_def) (simp add: u_def)
  have lit: "bold_red (u ''Historical'') @ u '': '' @ u ''a\<newline>b'' = u ''[bold red]Historical[/]: a\<newline>b''"
    "bold_red (u ''Theoretical'') @ u '': '' @ u ''a\<newline>b'' = u ''[bold red]Theoretical[/]: a\<newline>b''"
    "bold_red (u ''Practical'') @ u '': '' @ u ''a\<newline>b'' = u ''[bold red]Practical[/]: a\<newline>b''"
    by (simp_all add: bold_red_def u_def)
  from synthesis_line_format [OF run]
  have "map answer_line (projr (fst ?g)) =
       [bold_red (u ''Historical'') @ u '': '' @ evidence (projr (fst ?g)) ! 0,
        bold_red (u ''Theoretical'') @ u '': '' @ evidence (projr (fst ?g)) ! 1,
        bold_red (u ''Practical'') @ u '': '' @ evidence (projr (fst ?g)) ! 2]"
    by blast
  then show ?thesis
    by (simp add: ev lit)
qed

lemma length_split_lines: "length (split_lines s) = Suc (count_list s 10)"
  by (induction s) (auto split: list.splits)

lemma split_lines_first:
  "10 \<notin> set xs \<Longrightarrow> split_lines (xs @ 10 # ys) = xs # split_lines ys"
  by (induction xs) auto

lemma count_list_append: "count_list (xs @ ys) c = count_list xs c + count_list ys c"
  by (induction xs) auto

lemma newline_literal: "u ''\<newline>'' = [10]"
  by (simp add: u_def)

lemma header_split: "u ''Tree-of-Thoughts Synthesis:\<newline>'' = u ''Tree-of-Thoughts Synthesis:'' @ [10]"
  by (simp add: u_def)

lemma no_newline_in_markup:
  "10 \<notin> set (u ''Tree-of-Thoughts Synthesis:'')"
  "count_list (bold_red (u ''Historical'') @ u '': '') 10 = 0"
  "count_list (bold_red (u ''Theoretical'') @ u '': '') 10 = 0"
  "count_list (bold_red (u ''Practical'') @ u '': '') 10 = 0"
  by (simp_all add: u_def bold_red_def)

text \<open>
  Claim C4, amended. Every text the search returns starts with the header line
  \<open>Tree-of-Thoughts Synthesis:\<close>, followed by the entries of the three branches in the
  order Historical, Theoretical, Practical, each the marked-up label, \<open>": "\<close> and the
  evidence text, joined by line feeds. The number of lines after the header is 3 plus
  the number of line feeds in the three evidence texts: exactly 3 when no evidence text
  contains a line feed.
\<close>

theorem synthesis_header_and_lines:
  "meta_deep_search L q st = (Inr out, st') \<Longrightarrow>
     \<exists>answers c1 c2 c3.
       gather L q (branches q) st = (Inr answers, st') \<and> evidence answers = [c1, c2, c3] \<and>
       out = u ''Tree-of-Thoughts Synthesis:\<newline>'' @
             bold_red (u ''Historical'') @ u '': '' @ c1 @ u ''\<newline>'' @
             bold_red (u ''Theoretical'') @ u '': '' @ c2 @ u ''\<newline>'' @
             bold_red (u ''Practical'') @ u '': '' @ c3 \<and>
       split_lines out = u ''Tree-of-Thoughts Synthesis:'' # lines_after_header out \<and>
       length (lines_after_header out) =
         3 + count_list c1 10 + count_list c2 10 + count_list c3 10"
proof -
  assume run: "meta_deep_search L q st = (Inr out, st')"
  then obtain answers where
    g: "gather L q (branches q) st = (Inr answers, st')" and
    out: "out = synthesize answers"
    by (auto simp: meta_deep_search_def search_over_def split: prod.splits sum.splits)
  from gather_three [OF g] obtain c1 c2 c3 where
    a: "answers =
     [(u ''Historical'', u ''What is the historical context of: '' @ q, c1),
      (u ''Theoretical'', u ''What are the theoretical principles behind: '' @ q, c2),
      (u ''Practical'', u ''What practical examples or proofs exist for: '' @ q, c3)]"
    by blast
  let ?rest = "bold_red (u ''Historical'') @ u '': '' @ c1 @ u ''\<newline>'' @
             bold_red (u ''Theoretical'') @ u '': '' @ c2 @ u ''\<newline>'' @
             bold_red (u ''Practical'') @ u '': '' @ c3"
  have o: "out = u ''Tree-of-Thoughts Synthesis:\<newline>'' @ ?rest"
    by (simp add: out a synthesize_def synthesis_def answer_line_def)
  have o': "out = u ''Tree-of-Thoughts Synthesis:'' @ 10 # ?rest"
    unfolding o header_split by simp
  have sl: "split_lines out = u ''Tree-of-Thoughts Synthesis:'' # split_lines ?rest"
    unfolding o' by (rule split_lines_first) (rule no_newline_in_markup)
  have cnt: "count_list ?rest 10 = 2 + count_list c1 10 + count_list c2 10 + count_list c3 10"
    using no_newline_in_markup(2-4)
    by (simp add: count_list_append newline_literal)
  have "length (lines_after_header out) = Suc (count_list ?rest 10)"
    by (simp add: lines_after_header_def sl length_split_lines)
  with cnt have "length (lines_after_header out) =
         3 + count_list c1 10 + count_list c2 10 + count_list c3 10"
    by simp
  moreover have "split_lines out = u ''Tree-of-Thoughts Synthesis:'' # lines_after_header out"
    by (simp add: lines_after_header_def sl)
  moreover have "evidence answers = [c1, c2, c3]"
    by (simp add: a evidence_def)
  ultimately show ?thesis
    using g o by blast
qed

text \<open>The run against a storage without matching rows: three lines after the header.\<close>

theorem synthesis_header_and_lines_witness:
  "length (lines_after_header (projr (fst (meta_deep_search (test_library (Inr ()) (always []))
      (u ''gravity'') (start ()))))) = 3"
proof -
  let ?L = "test_library (Inr ()) (always [])"
  let ?m = "meta_deep_search ?L (u ''gravity'') (start ())"
  have run: "?m = (Inr (projr (fst ?m)), snd ?m)"
    by (simp add: search_no_rows)
  have st: "snd ?m = snd (gather ?L (u ''gravity'') (branches (u ''gravity'')) (start ()))"
    by (simp add: search_no_rows gather_no_rows)
  have none: "count_list no_evidence 10 = 0"
    by (simp add: no_evidence_def u_def)
  from synthesis_header_and_lines [OF run] obtain answers c1 c2 c3 where
    g: "gather ?L (u ''gravity'') (branches (u ''gravity'')) (start ()) = (Inr answers, snd ?m)" and
    e: "evidence answers = [c1, c2, c3]" and
    n: "length (lines_after_header (projr (fst ?m))) =
         3 + count_list c1 10 + count_list c2 10 + count_list c3 10"
    by blast
  from g e have "c1 = no_evidence" "c2 = no_evidence" "c3 = no_evidence"
    by (auto simp: gather_no_rows evidence_def)
  with n none show ?thesis by simp
qed

text \<open>
  With two matching rows for every branch, each evidence text has two lines, and six
  lines follow the header, not three.
\<close>

theorem three_lines_counterexample:
  "fst (meta_deep_search (test_library (Inr ()) (always [[u ''gravity bends light''], [u ''zero gravity'']]))
      (u ''gravity'') (start ())) =
     Inr (u ''Tree-of-Thoughts Synthesis:\<newline>[bold red]Historical[/]: gravity bends light\<newline>zero gravity\<newline>[bold red]Theoretical[/]: gravity bends light\<newline>zero gravity\<newline>[bold red]Practical[/]: gravity bends light\<newline>zero gravity'') \<and>
   lines_after_header (u ''Tree-of-Thoughts Synthesis:\<newline>[bold red]Historical[/]: gravity bends light\<newline>zero gravity\<newline>[bold red]Theoretical[/]: gravity bends light\<newline>zero gravity\<newline>[bold red]Practical[/]: gravity bends light\<newline>zero gravity'') =
     [u ''[bold red]Historical[/]: gravity bends light'', u ''zero gravity'',
      u ''[bold red]Theoretical[/]: gravity bends light'', u ''zero gravity'',
      u ''[bold red]Practical[/]: gravity bends light'', u ''zero gravity''] \<and>
   length (lines_after_header (u ''Tree-of-Thoughts Synthesis:\<newline>[bold red]Historical[/]: gravity bends light\<newline>zero gravity\<newline>[bold red]Theoretical[/]: gravity bends light\<newline>zero gravity\<newline>[bold red]Practical[/]: gravity bends light\<newline>zero gravity'')) \<noteq> 3"
proof -
  have l: "lines_after_header (u ''Tree-of-Thoughts Synthesis:\<newline>[bold red]Historical[/]: gravity bends light\<newline>zero gravity\<newline>[bold red]Theoretical[/]: gravity bends light\<newline>zero gravity\<newline>[bold red]Practical[/]: gravity bends light\<newline>zero gravity'') =
     [u ''[bold red]Historical[/]: gravity bends light'', u ''zero gravity'',
      u ''[bold red]Theoretical[/]: gravity bends light'', u ''zero gravity'',
      u ''[bold red]Practical[/]: gravity bends light'', u ''zero gravity'']"
    by (simp add: lines_after_header_def u_def)
  show ?thesis
    unfolding l by (simp add: search_two_rows)
qed

section \<open>The entry point\<close>














section \<open>Failures of the storage\<close>

text \<open>
  Claim C6. If \<open>connect_db\<close> raises, or \<open>db.cursor()\<close> after it, or if any
  \<open>cursor.execute\<close> or \<open>cursor.fetchall\<close> of the run raises, then this exception
  leaves \<open>main\<close>, the process ends with status 1, and nothing has been written to
  standard output.
\<close>

theorem storage_failure_aborts:
  assumes "run L input w = (code, st)"
    and "connect_db L (start w) = (Inl e, st1) \<or> open_cursor L (start w) = (Inl e, st1) \<or>
         (\<exists>ev \<in> set (history st). raised ev = Some e)"
  shows "fst (main L input (start w)) = Inl e \<and> code = 1 \<and> stdout st = []"
proof -
  obtain r where m: "main L input (start w) = (r, st)" and
    code: "code = (case r of Inl e \<Rightarrow> 1 | Inr _ \<Rightarrow> 0)"
    using assms(1) by (auto simp: run_def split: prod.splits sum.splits)
  obtain ra sta where s: "meta_deep_search L (strip input) (start w) = (ra, sta)"
    by (cases "meta_deep_search L (strip input) (start w)")
  then obtain rg where g: "gather L (strip input) (branches (strip input)) (start w) = (rg, sta)"
    and ra: "ra = map_sum id synthesize rg"
    by (auto simp: meta_deep_search_def search_over_def split: prod.splits sum.splits)
  have hist: "history st = history sta" and out: "ra = Inl e \<Longrightarrow> r = Inl e \<and> st = sta"
    using m s by (auto elim!: main_cases)
  have "rg = Inl e"
  proof -
    from assms(2) consider
      (connect) "connect_db L (start w) = (Inl e, st1)"
      | (cursor) "open_cursor L (start w) = (Inl e, st1)"
      | (request) "\<exists>ev \<in> set (history st). raised ev = Some e"
      by blast
    then show ?thesis
    proof cases
      case connect
      from gather_connect_fails [OF this] g show ?thesis by simp
    next
      case cursor
      with g show ?thesis by (simp add: gather_def)
    next
      case request
      moreover from gather_raised [OF g] have
        "\<forall>ev \<in> set (history sta). \<forall>e. raised ev = Some e \<longrightarrow> rg = Inl e"
        by (auto simp: history_start)
      ultimately show ?thesis using hist by auto
    qed
  qed
  with ra have "ra = Inl e" by simp
  with out have r: "r = Inl e" "st = sta" by simp_all
  from search_effect [OF s] r have "stdout st = []" by (simp add: history_start)
  with r m code show ?thesis by simp
qed

text \<open>
  A run whose second fetch raises, after a first branch that succeeded, and a run whose
  database does not open.
\<close>

theorem storage_failure_aborts_witness:
  "run (test_library (Inr ()) scripted) (u '' gravity\<newline>'') [Inr [], Inl QueryError] =
     (1, \<lparr>world = [],
       history = [Execute knowledge_query [like_pattern (u ''gravity'')] None, Fetchall (Inr []),
                  Execute knowledge_query [like_pattern (u ''gravity'')] None, Fetchall (Inl QueryError)],
       stdout = []\<rparr>) \<and>
   fst (main (test_library (Inl ConnectError) (always [])) (u '' gravity\<newline>'') (start ())) =
     Inl ConnectError \<and>
   fst (run (test_library (Inl ConnectError) (always [])) (u '' gravity\<newline>'') ()) = 1 \<and>
   stdout (snd (run (test_library (Inl ConnectError) (always [])) (u '' gravity\<newline>'') ())) = []"
proof -
  let ?L = "test_library (Inr ()) scripted"
  let ?w = "[Inr [], Inl QueryError]"
  let ?r = "run ?L (u '' gravity\<newline>'') ?w"
  have st: "snd ?r = \<lparr>world = [],
       history = [Execute knowledge_query [like_pattern (u ''gravity'')] None, Fetchall (Inr []),
                  Execute knowledge_query [like_pattern (u ''gravity'')] None, Fetchall (Inl QueryError)],
       stdout = []\<rparr>"
    by (simp add: run_def main_query_fails)
  have ev: "\<exists>ev \<in> set (history (snd ?r)). raised ev = Some QueryError"
    unfolding st by simp
  from storage_failure_aborts [of ?L "u '' gravity\<newline>''" ?w "fst ?r" "snd ?r" QueryError] ev
  have "fst ?r = 1" by simp
  then have a: "?r = (1, snd ?r)"
    by (metis prod.collapse)
  let ?K = "test_library (Inl ConnectError) (always [])"
  let ?k = "run ?K (u '' gravity\<newline>'') ()"
  from storage_failure_aborts [of ?K "u '' gravity\<newline>''" "()" "fst ?k" "snd ?k" ConnectError "start ()"]
    connect_fails
  have b: "fst (main ?K (u '' gravity\<newline>'') (start ())) = Inl ConnectError \<and> fst ?k = 1 \<and>
      stdout (snd ?k) = []"
    by simp
  from a b show ?thesis
    unfolding st by simp
qed

section \<open>Repeated invocations\<close>

lemma for_branches_by_response:
  assumes "answers_by L response" "answers_by L' response"
  shows "fst (for_branches L cur q bs as st) = fst (for_branches L' cur' q bs as st')"
proof (induction bs arbitrary: as st st')
  case Nil
  show ?case by simp
next
  case (Cons b bs)
  have eq: "fst (branch_step L cur q b as st) = fst (branch_step L' cur' q b as st')"
    by (simp add: branch_step_by_response [OF assms(1)] branch_step_by_response [OF assms(2)])
  show ?case
  proof (cases "branch_step L cur q b as st")
    case (Pair r1 st1)
    obtain st1' where p': "branch_step L' cur' q b as st' = (r1, st1')"
      using eq Pair by (cases "branch_step L' cur' q b as st'") simp
    show ?thesis
      using Pair p' Cons.IH by (cases r1) simp_all
  qed
qed

lemma gather_by_response:
  assumes "fixed_storage L opened response" "fixed_storage L' opened response"
  shows "fst (gather L q bs st) = fst (gather L' q bs st')"
proof -
  from assms obtain st1 st1' where
    o: "open_cursor L st = (opened, st1)" "open_cursor L' st' = (opened, st1')"
    by (metis fixed_storage_def prod.collapse)
  from assms have a: "answers_by L response" "answers_by L' response"
    by (simp_all add: fixed_storage_def)
  show ?thesis
  proof (cases opened)
    case (Inl e)
    with o show ?thesis by (simp add: gather_def)
  next
    case (Inr cur)
    with o for_branches_by_response [OF a, of cur q bs "[]" st1 cur st1']
    show ?thesis by (simp add: gather_def)
  qed
qed

text \<open>
  Claim C9. The status and the output of an invocation are determined by the input text,
  by how the storage opens, by its response function and by how texts are rendered: two
  invocations that agree on these end with the same status and the same standard output,
  whatever the worlds they start in, in particular the world the first one left behind.
\<close>

theorem output_determined_by_responses:
  assumes "fixed_storage L opened response" "fixed_storage L' opened response"
    and "render L' = render L"
  shows "fst (run L' input w') = fst (run L input w) \<and>
         stdout (snd (run L' input w')) = stdout (snd (run L input w))"
proof -
  from gather_by_response [OF assms(1,2), of "strip input" "branches (strip input)" "start w" "start w'"]
  have "fst (meta_deep_search L (strip input) (start w)) =
        fst (meta_deep_search L' (strip input) (start w'))"
    by (simp add: search_fst)
  then show ?thesis
    unfolding run_fst run_snd main_fst main_stdout assms(3) by (simp add: history_start)
qed

text \<open>
  Two invocations one after the other, on a storage that counts the fetches: the second
  starts in the world with three fetches counted.
\<close>

theorem output_determined_by_responses_witness:
  "world (snd (run (test_library (Inr ()) (counting [[u ''a'']])) (u ''gravity'') 0)) = 3 \<and>
   fst (run (test_library (Inr ()) (counting [[u ''a'']])) (u ''gravity'') 3) =
     fst (run (test_library (Inr ()) (counting [[u ''a'']])) (u ''gravity'') 0) \<and>
   stdout (snd (run (test_library (Inr ()) (counting [[u ''a'']])) (u ''gravity'') 3)) =
     stdout (snd (run (test_library (Inr ()) (counting [[u ''a'']])) (u ''gravity'') 0))"
proof -
  let ?L = "test_library (Inr ()) (counting [[u ''a'']])"
  have f: "fixed_storage ?L (Inr ()) (\<lambda>stmt params. Inr [[u ''a'']])"
    by (rule counting_fixed)
  from output_determined_by_responses [OF f f refl, of "u ''gravity''" 3 0] counting_world
  show ?thesis by simp
qed

end
